theory Spec2Isabelle
  imports Complex_Main
begin

section \<open>Quasimodular and mock modular forms of weilrep (mock.py)\<close>

text \<open>
  The module \<^verbatim>\<open>weilrep/mock.py\<close> builds three classes on top of the class
  \<^verbatim>\<open>WeilRepModularForm\<close>: quasimodular forms, their almost-holomorphic
  completions, and mock modular forms. Every method of the module is embedded below
  as a function on explicit values; every \<^verbatim>\<open>raise\<close> is a value \<open>Inl e\<close>.
\<close>

subsection \<open>Errors\<close>

datatype error =
    ValueError string
  | IndexError
  | AttributeError
  | TypeError
  | ZeroDivisionError
  | NotImplemented

text \<open>A list comprehension whose elements may raise: the first failure, from the left, wins.\<close>

fun sequence_err :: "(error + 'a) list \<Rightarrow> error + 'a list" where
  "sequence_err [] = Inr []"
| "sequence_err (Inl e # xs) = Inl e"
| "sequence_err (Inr x # xs) =
     (case sequence_err xs of Inl e \<Rightarrow> Inl e | Inr ys \<Rightarrow> Inr (x # ys))"

subsection \<open>Truncated q-series (the Sage series the derivative works on)\<close>

text \<open>
  A series \<open>q^sstart * (c0 + c1 q + ...) + O(q^sprec)\<close>. Only the coefficients below the
  precision are part of the series.
\<close>

record series =
  sstart :: int
  scoeffs :: "rat list"
  sprec :: int

definition known :: "series \<Rightarrow> rat list" where
  "known f = take (nat (sprec f - sstart f)) (scoeffs f)"

text \<open>Sage's \<^verbatim>\<open>f[n]\<close> below the precision (zero outside the stored range).\<close>

definition coeff :: "series \<Rightarrow> int \<Rightarrow> rat" where
  "coeff f n =
     (if sstart f \<le> n \<and> nat (n - sstart f) < length (known f)
      then known f ! nat (n - sstart f) else 0)"

text \<open>Sage's \<^verbatim>\<open>f[n]\<close>: a coefficient at or beyond the precision is not known.\<close>

definition sget :: "series \<Rightarrow> int \<Rightarrow> error + rat" where
  "sget f n = (if sprec f \<le> n then Inl IndexError else Inr (coeff f n))"

text \<open>\<^verbatim>\<open>not f\<close>: every known coefficient vanishes.\<close>

definition is_zero :: "series \<Rightarrow> bool" where
  "is_zero f = list_all (\<lambda>c. c = 0) (known f)"

text \<open>\<^verbatim>\<open>f.valuation()\<close>: the least exponent with a non-zero coefficient, the
  precision for a zero series.\<close>

definition valuation :: "series \<Rightarrow> int" where
  "valuation f =
     (if is_zero f then sprec f
      else sstart f + int (length (takeWhile (\<lambda>c. c = 0) (known f))))"

text \<open>\<^verbatim>\<open>O(q ** p)\<close>.\<close>

definition big_oh :: "int \<Rightarrow> series" where
  "big_oh p = \<lparr>sstart = p, scoeffs = [], sprec = p\<rparr>"

text \<open>\<^verbatim>\<open>(q**val * R(cs)).add_bigoh(p)\<close>: the exact Laurent polynomial with coefficient
  list \<open>cs\<close> from exponent \<open>val\<close> on, truncated at \<open>O(q^p)\<close>.\<close>

definition poly_bigoh :: "int \<Rightarrow> rat list \<Rightarrow> int \<Rightarrow> series" where
  "poly_bigoh val cs p = \<lparr>sstart = val, scoeffs = take (nat (p - val)) cs, sprec = p\<rparr>"

subsection \<open>The base class \<^verbatim>\<open>WeilRepModularForm\<close>\<close>

type_synonym gram = "int list list"

text \<open>
  A base form holds what its constructor is given: the weight, the Gram matrix and the
  Fourier expansion, a list of triples (component, exponent offset, series). The lattice
  handle \<^verbatim>\<open>weilrep()\<close> is identified with the Gram matrix it is built from.
\<close>

record bform =
  bweight :: rat
  bgram :: gram
  bfe :: "(rat list \<times> rat \<times> series) list"

text \<open>
  The operators of the base class and of the lattice handle live in
  \<^verbatim>\<open>weilrep_modular_forms_class.py\<close>, outside mock.py. They are parameters of
  everything below: truth value, \<open>+\<close> and \<open>-\<close> (which may raise), unary minus, product with
  a scalar, tensor product, division by a scalar, \<^verbatim>\<open>precision()\<close>, the sum of two lattice
  handles and \<^verbatim>\<open>w.zero(weight, prec)\<close>.
\<close>

record base_lib =
  b_bool :: "bform \<Rightarrow> bool"
  b_add :: "bform \<Rightarrow> bform \<Rightarrow> error + bform"
  b_sub :: "bform \<Rightarrow> bform \<Rightarrow> error + bform"
  b_neg :: "bform \<Rightarrow> bform"
  b_smul :: "rat \<Rightarrow> bform \<Rightarrow> bform"
  b_mul :: "bform \<Rightarrow> bform \<Rightarrow> bform"
  b_div :: "bform \<Rightarrow> rat \<Rightarrow> bform"
  b_precision :: "bform \<Rightarrow> int"
  w_sum :: "gram \<Rightarrow> gram \<Rightarrow> gram"
  w_zero :: "gram \<Rightarrow> rat \<Rightarrow> int \<Rightarrow> bform"

subsection \<open>\<^verbatim>\<open>WeilRepQuasiModularForm\<close>\<close>

text \<open>
  An instance is the inherited base form together with the two private attributes
  \<^verbatim>\<open>__terms\<close> and \<^verbatim>\<open>__depth\<close>, which the constructor sets only when more than one
  term is left after trimming.
\<close>

record qform =
  qbase :: bform
  qexp :: "(bform list \<times> nat) option"

text \<open>\<^verbatim>\<open>next(j for j, x in enumerate(terms) if x)\<close>, the length when no term is true.\<close>

definition first_true :: "base_lib \<Rightarrow> bform list \<Rightarrow> nat" where
  "first_true ops ts = length (takeWhile (\<lambda>x. \<not> b_bool ops x) ts)"

definition qinit :: "base_lib \<Rightarrow> rat \<Rightarrow> gram \<Rightarrow> bform list \<Rightarrow> error + qform" where
  "qinit ops k S ts =
     (if ts = [] then Inl IndexError
      else
        let l = length ts;
            j = first_true ops ts;
            f = bfe (last ts);
            base = \<lparr>bweight = k, bgram = S, bfe = f\<rparr>;
            l' = l - 1
        in if j < l'
           then Inr \<lparr>qbase = base, qexp = Some (drop j ts, l' - j)\<rparr>
           else Inr \<lparr>qbase = base, qexp = None\<rparr>)"

definition depth :: "qform \<Rightarrow> nat" where
  "depth f = (case qexp f of Some (ts, r) \<Rightarrow> r | None \<Rightarrow> 0)"

definition terms :: "qform \<Rightarrow> bform list" where
  "terms f = (case qexp f of Some (ts, r) \<Rightarrow> ts | None \<Rightarrow> [qbase f])"

text \<open>The other operand of \<open>+\<close> and \<open>-\<close>: a form, or a number.\<close>

datatype qoperand = QForm qform | QNum rat

definition qfalsy :: "base_lib \<Rightarrow> qoperand \<Rightarrow> bool" where
  "qfalsy ops x = (case x of QForm g \<Rightarrow> \<not> b_bool ops (qbase g) | QNum c \<Rightarrow> c = 0)"

definition add_terms :: "base_lib \<Rightarrow> qform \<Rightarrow> qform \<Rightarrow> (error + bform) list" where
  "add_terms ops f g =
     (let d1 = depth f; d2 = depth g; t1 = terms f; t2 = terms g
      in if d1 \<le> d2
         then map Inr (take (d2 - d1) t2) @
              map (\<lambda>i. b_add ops (t1 ! i) (t2 ! (i + (d2 - d1)))) [0..<d1 + 1]
         else map Inr (take (d1 - d2) t1) @
              map (\<lambda>i. b_add ops (t1 ! (i + (d1 - d2))) (t2 ! i)) [0..<d2 + 1])"

definition qadd :: "base_lib \<Rightarrow> qform \<Rightarrow> qoperand \<Rightarrow> error + qform" where
  "qadd ops f x =
     (if qfalsy ops x then Inr f
      else case x of
        QNum c \<Rightarrow> Inl AttributeError
      | QForm g \<Rightarrow>
          if bgram (qbase f) \<noteq> bgram (qbase g)
          then Inl (ValueError ''Incompatible Gram matrices'')
          else if bweight (qbase f) \<noteq> bweight (qbase g)
          then Inl (ValueError ''Incompatible weights'')
          else (case sequence_err (add_terms ops f g) of
                  Inl e \<Rightarrow> Inl e
                | Inr X \<Rightarrow> qinit ops (bweight (qbase f)) (bgram (qbase f)) X))"

definition sub_terms :: "base_lib \<Rightarrow> qform \<Rightarrow> qform \<Rightarrow> (error + bform) list" where
  "sub_terms ops f g =
     (let d1 = depth f; d2 = depth g; t1 = terms f; t2 = terms g
      in if d1 \<le> d2
         then map (\<lambda>x. Inr (b_neg ops x)) (take (d2 - d1) t2) @
              map (\<lambda>i. b_sub ops (t1 ! i) (t2 ! (i + (d2 - d1)))) [0..<d1 + 1]
         else map Inr (take (d1 - d2) t1) @
              map (\<lambda>i. b_sub ops (t1 ! (i + (d1 - d2))) (t2 ! i)) [0..<d2 + 1])"

definition qsub :: "base_lib \<Rightarrow> qform \<Rightarrow> qoperand \<Rightarrow> error + qform" where
  "qsub ops f x =
     (if qfalsy ops x then Inr f
      else case x of
        QNum c \<Rightarrow> Inl AttributeError
      | QForm g \<Rightarrow>
          if bgram (qbase f) \<noteq> bgram (qbase g)
          then Inl (ValueError ''Incompatible Gram matrices'')
          else if bweight (qbase f) \<noteq> bweight (qbase g)
          then Inl (ValueError ''Incompatible weights'')
          else (case sequence_err (sub_terms ops f g) of
                  Inl e \<Rightarrow> Inl e
                | Inr X \<Rightarrow> qinit ops (bweight (qbase f)) (bgram (qbase f)) X))"

definition qneg :: "base_lib \<Rightarrow> qform \<Rightarrow> error + qform" where
  "qneg ops f = qinit ops (bweight (qbase f)) (bgram (qbase f)) (map (b_neg ops) (terms f))"

text \<open>The other operand of \<open>*\<close>: an element of \<^verbatim>\<open>QQ\<close>, or a form.\<close>

datatype moperand = MScalar rat | MForm qform

text \<open>The double loop \<^verbatim>\<open>X[i + j] += t1[i]*t2[j]\<close> over the pairs in the order the
  loops visit them.\<close>

fun mul_loop ::
  "base_lib \<Rightarrow> bform list \<Rightarrow> bform list \<Rightarrow> (nat \<times> nat) list \<Rightarrow> bform list \<Rightarrow> error + bform list"
where
  "mul_loop ops t1 t2 [] X = Inr X"
| "mul_loop ops t1 t2 ((i, j) # ps) X =
     (case b_add ops (X ! (i + j)) (b_mul ops (t1 ! i) (t2 ! j)) of
        Inl e \<Rightarrow> Inl e
      | Inr y \<Rightarrow> mul_loop ops t1 t2 ps (X[i + j := y]))"

definition index_pairs :: "nat \<Rightarrow> nat \<Rightarrow> (nat \<times> nat) list" where
  "index_pairs r s = concat (map (\<lambda>i. map (\<lambda>j. (i, j)) [0..<s + 1]) [0..<r + 1])"

definition mul_terms :: "base_lib \<Rightarrow> qform \<Rightarrow> qform \<Rightarrow> error + bform list" where
  "mul_terms ops f g =
     (let w = w_sum ops (bgram (qbase f)) (bgram (qbase g));
          k = bweight (qbase f) + bweight (qbase g);
          r = depth f; s = depth g; rs = r + s;
          j = k - of_nat rs - of_nat rs;
          p = b_precision ops (qbase f);
          X = map (\<lambda>i. w_zero ops w (of_nat (i + i) + j) p) [0..<rs + 1]
      in mul_loop ops (terms f) (terms g) (index_pairs r s) X)"

definition qmul :: "base_lib \<Rightarrow> qform \<Rightarrow> moperand \<Rightarrow> error + qform" where
  "qmul ops f x =
     (case x of
        MScalar c \<Rightarrow>
          qinit ops (bweight (qbase f)) (bgram (qbase f)) (map (b_smul ops c) (terms f))
      | MForm g \<Rightarrow>
          (case mul_terms ops f g of
             Inl e \<Rightarrow> Inl e
           | Inr X \<Rightarrow>
               qinit ops (bweight (qbase f) + bweight (qbase g))
                 (w_sum ops (bgram (qbase f)) (bgram (qbase g))) X))"

definition qdiv :: "base_lib \<Rightarrow> qform \<Rightarrow> rat \<Rightarrow> error + qform" where
  "qdiv ops f c =
     qinit ops (bweight (qbase f)) (bgram (qbase f)) (map (\<lambda>x. b_div ops x c) (terms f))"


subsubsection \<open>derivative\<close>

text \<open>The local function \<^verbatim>\<open>a(offset, f)\<close>.\<close>

definition a :: "rat \<Rightarrow> series \<Rightarrow> series" where
  "a offset f =
     (if is_zero f then big_oh (sprec f)
      else
        let val = valuation f; prec = sprec f
        in poly_bigoh val (map (\<lambda>i. (of_int i + offset) * coeff f i) [val..prec - 1])
             (prec - \<lfloor>offset\<rfloor>))"

text \<open>The local function \<^verbatim>\<open>d(X)\<close>; \<open>S\<close> is the Gram matrix of the form being
  differentiated.\<close>

definition d :: "gram \<Rightarrow> bform \<Rightarrow> bform" where
  "d S X =
     \<lparr>bweight = bweight X + 2, bgram = S,
      bfe = map (\<lambda>(g, offset, f). (g, offset, a offset f)) (bfe X)\<rparr>"

definition derivative_terms :: "base_lib \<Rightarrow> qform \<Rightarrow> (error + bform) list" where
  "derivative_terms ops f =
     (let t = terms f; S = bgram (qbase f); r = depth f; k = bweight (qbase f)
      in [Inr (b_smul ops (of_nat r - k) (t ! 0))] @
         map (\<lambda>j. b_add ops (b_smul ops (of_nat r - k - of_nat j) (t ! j)) (d S (t ! (j - 1))))
           [1..<r + 1] @
         [Inr (d S (last t))])"

text \<open>\<^verbatim>\<open>self.fourier_expansion()[0]\<close> raises on an empty expansion.\<close>

definition derivative :: "base_lib \<Rightarrow> qform \<Rightarrow> error + qform" where
  "derivative ops f =
     (if bfe (qbase f) = [] then Inl IndexError
      else case sequence_err (derivative_terms ops f) of
             Inl e \<Rightarrow> Inl e
           | Inr X \<Rightarrow> qinit ops (bweight (qbase f) + 2) (bgram (qbase f)) X)"

subsubsection \<open>shift\<close>

text \<open>The loop \<^verbatim>\<open>for j in range(1, r + 1): f[k] = j * f[k + 1]; k -= 1\<close> on the state
  \<open>(f, k)\<close>.\<close>

fun shift_loop :: "nat list \<Rightarrow> int list \<times> int \<Rightarrow> int list \<times> int" where
  "shift_loop [] (f, k) = (f, k)"
| "shift_loop (j # js) (f, k) =
     shift_loop js (f[nat k := int j * f ! nat (k + 1)], k - 1)"

definition shift :: "base_lib \<Rightarrow> qform \<Rightarrow> error + qform" where
  "shift ops f =
     (let r = depth f;
          (fs, k) = shift_loop [1..<r + 1] (replicate (r + 1) 1, int r - 1);
          X = terms f
      in qinit ops (of_int k - 2) (bgram (qbase f))
           (map (\<lambda>(i, y). b_smul ops (of_int (fs ! i)) y) (enumerate 0 (butlast X))))"

subsection \<open>\<^verbatim>\<open>WeilRepAlmostHolomorphicModularForm\<close>\<close>

record ahform =
  ah_weight :: rat
  ah_gram :: gram
  ah_list :: "qform list"
  ah_depth :: nat

definition ah_init :: "rat \<Rightarrow> gram \<Rightarrow> qform list \<Rightarrow> error + ahform" where
  "ah_init k S X =
     (if X = [] then Inl IndexError
      else Inr \<lparr>ah_weight = k, ah_gram = S, ah_list = X, ah_depth = depth (X ! 0)\<rparr>)"

text \<open>The loop of \<^verbatim>\<open>completion\<close> on the state \<open>(X, j)\<close>, over the values of \<open>i\<close>.\<close>

fun completion_loop :: "base_lib \<Rightarrow> nat list \<Rightarrow> qform list \<Rightarrow> nat \<Rightarrow> error + qform list" where
  "completion_loop ops [] X j = Inr X"
| "completion_loop ops (i # is) X j =
     (let j' = j * (i + 1)
      in case shift ops (last X) of
           Inl e \<Rightarrow> Inl e
         | Inr s \<Rightarrow>
             (case qdiv ops s (of_nat j') of
                Inl e \<Rightarrow> Inl e
              | Inr y \<Rightarrow> completion_loop ops is (X @ [y]) j'))"

definition completion_list :: "base_lib \<Rightarrow> qform \<Rightarrow> error + qform list" where
  "completion_list ops f = completion_loop ops [0..<depth f] [f] 1"

definition completion :: "base_lib \<Rightarrow> qform \<Rightarrow> error + ahform" where
  "completion ops f =
     (case completion_list ops f of
        Inl e \<Rightarrow> Inl e
      | Inr X \<Rightarrow> ah_init (bweight (qbase f)) (bgram (qbase f)) X)"

text \<open>The other operand of the lazy arithmetic: a completion, a form, or a number. An
  instance of the class has no truth method, so it is always true.\<close>

datatype ahoperand = AHOp ahform | AHForm qform | AHNum rat

definition ahfalsy :: "base_lib \<Rightarrow> ahoperand \<Rightarrow> bool" where
  "ahfalsy ops x =
     (case x of AHOp b \<Rightarrow> False | AHForm g \<Rightarrow> \<not> b_bool ops (qbase g) | AHNum c \<Rightarrow> c = 0)"

definition ah_getitem :: "ahform \<Rightarrow> nat \<Rightarrow> error + qform" where
  "ah_getitem A n = (if n < length (ah_list A) then Inr (ah_list A ! n) else Inl IndexError)"

definition complete_result :: "base_lib \<Rightarrow> error + qform \<Rightarrow> error + ahform" where
  "complete_result ops r = (case r of Inl e \<Rightarrow> Inl e | Inr g \<Rightarrow> completion ops g)"

text \<open>
  \<^verbatim>\<open>try: (self[0] + other[0]).completion()  except AttributeError: (self[0] + other).completion()\<close>.
  Indexing a form that is not a completion is taken to raise the \<^verbatim>\<open>AttributeError\<close> the
  handler waits for; indexing a number raises \<^verbatim>\<open>TypeError\<close>.
\<close>

definition ah_add :: "base_lib \<Rightarrow> ahform \<Rightarrow> ahoperand \<Rightarrow> error + ahform" where
  "ah_add ops A x =
     (if ahfalsy ops x then Inr A
      else case ah_getitem A 0 of
        Inl e \<Rightarrow> Inl e
      | Inr f0 \<Rightarrow>
          (case x of
             AHOp B \<Rightarrow>
               (case ah_getitem B 0 of
                  Inl e \<Rightarrow> Inl e
                | Inr g0 \<Rightarrow> complete_result ops (qadd ops f0 (QForm g0)))
           | AHForm g \<Rightarrow> complete_result ops (qadd ops f0 (QForm g))
           | AHNum c \<Rightarrow> Inl TypeError))"

definition ah_sub :: "base_lib \<Rightarrow> ahform \<Rightarrow> ahoperand \<Rightarrow> error + ahform" where
  "ah_sub ops A x =
     (if ahfalsy ops x then Inr A
      else case ah_getitem A 0 of
        Inl e \<Rightarrow> Inl e
      | Inr f0 \<Rightarrow>
          (case x of
             AHOp B \<Rightarrow>
               (case ah_getitem B 0 of
                  Inl e \<Rightarrow> Inl e
                | Inr g0 \<Rightarrow> complete_result ops (qsub ops f0 (QForm g0)))
           | AHForm g \<Rightarrow> complete_result ops (qsub ops f0 (QForm g))
           | AHNum c \<Rightarrow> Inl TypeError))"

subsection \<open>\<^verbatim>\<open>WeilRepMockModularForm\<close>\<close>

record mform =
  mbase :: bform
  mshadow :: bform

definition mock_init ::
  "rat \<Rightarrow> gram \<Rightarrow> (rat list \<times> rat \<times> series) list \<Rightarrow> bform \<Rightarrow> mform" where
  "mock_init k S X shadow = \<lparr>mbase = \<lparr>bweight = k, bgram = S, bfe = X\<rparr>, mshadow = shadow\<rparr>"

text \<open>The other operand of \<open>+\<close> and \<open>-\<close>: a mock form (\<^verbatim>\<open>isinstance\<close> holds) or a plain
  form.\<close>

datatype mockoperand = IsMock mform | NotMock bform

definition operand_form :: "mockoperand \<Rightarrow> bform" where
  "operand_form x = (case x of IsMock m \<Rightarrow> mbase m | NotMock b \<Rightarrow> b)"

definition mock_add :: "base_lib \<Rightarrow> mform \<Rightarrow> mockoperand \<Rightarrow> error + mform" where
  "mock_add ops m x =
     (case b_add ops (mbase m) (operand_form x) of
        Inl e \<Rightarrow> Inl e
      | Inr f \<Rightarrow>
          (case (case x of
                   IsMock m' \<Rightarrow> b_add ops (mshadow m) (mshadow m')
                 | NotMock b \<Rightarrow> Inr (mshadow m)) of
             Inl e \<Rightarrow> Inl e
           | Inr s \<Rightarrow> Inr (mock_init (bweight (mbase m)) (bgram (mbase m)) (bfe f) s)))"

definition mock_sub :: "base_lib \<Rightarrow> mform \<Rightarrow> mockoperand \<Rightarrow> error + mform" where
  "mock_sub ops m x =
     (case b_sub ops (mbase m) (operand_form x) of
        Inl e \<Rightarrow> Inl e
      | Inr f \<Rightarrow>
          (case (case x of
                   IsMock m' \<Rightarrow> b_sub ops (mshadow m) (mshadow m')
                 | NotMock b \<Rightarrow> Inr (mshadow m)) of
             Inl e \<Rightarrow> Inl e
           | Inr s \<Rightarrow> Inr (mock_init (bweight (mbase m)) (bgram (mbase m)) (bfe f) s)))"

definition mock_neg :: "base_lib \<Rightarrow> mform \<Rightarrow> mform" where
  "mock_neg ops m =
     mock_init (bweight (mbase m)) (bgram (mbase m)) (bfe (b_neg ops (mbase m)))
       (b_neg ops (mshadow m))"

text \<open>
  The other operand of \<open>*\<close> and \<open>/\<close>. The test \<^verbatim>\<open>other in QQ\<close> holds of a Python
  integer as well as of an element of Sage's \<^verbatim>\<open>ZZ\<close> or \<^verbatim>\<open>QQ\<close>; the two kinds are kept
  apart because the operator \<^verbatim>\<open>~\<close> of \<^verbatim>\<open>__truediv__\<close> tells them apart. Anything that
  is not in \<^verbatim>\<open>QQ\<close> is a \<open>NonScalar\<close>. Inexact numbers (a Python float) are not modelled.
\<close>

datatype scalar_operand = PyInt int | Scalar rat | NonScalar mockoperand

text \<open>The value by which a scalar operand multiplies.\<close>

definition scalar_value :: "scalar_operand \<Rightarrow> rat option" where
  "scalar_value x =
     (case x of PyInt n \<Rightarrow> Some (of_int n) | Scalar c \<Rightarrow> Some c | NonScalar y \<Rightarrow> None)"

definition mock_mul :: "base_lib \<Rightarrow> mform \<Rightarrow> scalar_operand \<Rightarrow> error + mform" where
  "mock_mul ops m x =
     (case scalar_value x of
        Some c \<Rightarrow>
          Inr (mock_init (bweight (mbase m)) (bgram (mbase m))
                 (bfe (b_smul ops c (mbase m))) (b_smul ops c (mshadow m)))
      | None \<Rightarrow> Inl NotImplemented)"

text \<open>
  The operator \<^verbatim>\<open>~other\<close>: on a Python integer \<open>n\<close> the bitwise complement \<open>-n - 1\<close>,
  again a Python integer; on an element of Sage's \<^verbatim>\<open>ZZ\<close> or \<^verbatim>\<open>QQ\<close> the inverse, which
  raises at zero; a form has no such operator.
\<close>

definition invert :: "scalar_operand \<Rightarrow> error + scalar_operand" where
  "invert x =
     (case x of
        PyInt n \<Rightarrow> Inr (PyInt (- n - 1))
      | Scalar c \<Rightarrow> if c = 0 then Inl ZeroDivisionError else Inr (Scalar (inverse c))
      | NonScalar y \<Rightarrow> Inl TypeError)"

text \<open>\<^verbatim>\<open>self.__mul__(~other)\<close>.\<close>

definition mock_truediv :: "base_lib \<Rightarrow> mform \<Rightarrow> scalar_operand \<Rightarrow> error + mform" where
  "mock_truediv ops m x =
     (case invert x of Inl e \<Rightarrow> Inl e | Inr y \<Rightarrow> mock_mul ops m y)"

definition mock_derivative :: "mform \<Rightarrow> error + mform" where
  "mock_derivative m = Inl NotImplemented"

subsection \<open>The invariant the constructor establishes\<close>

text \<open>
  What \<^verbatim>\<open>__init__\<close> guarantees of the attributes it sets: the stored depth is at least
  one, there is one term more than the depth, the first stored term is true, and the
  inherited expansion is the one of the last term.
\<close>

definition wf_qform :: "base_lib \<Rightarrow> qform \<Rightarrow> bool" where
  "wf_qform ops f =
     (case qexp f of
        None \<Rightarrow> True
      | Some (ts, r) \<Rightarrow>
          1 \<le> r \<and> length ts = r + 1 \<and> b_bool ops (ts ! 0) \<and> bfe (qbase f) = bfe (last ts))"

text \<open>\<^verbatim>\<open>x += y1; x += y2; ...\<close> with the operator of the base class.\<close>

fun add_all :: "base_lib \<Rightarrow> bform \<Rightarrow> bform list \<Rightarrow> error + bform" where
  "add_all ops x [] = Inr x"
| "add_all ops x (y # ys) =
     (case b_add ops x y of Inl e \<Rightarrow> Inl e | Inr z \<Rightarrow> add_all ops z ys)"

subsection \<open>An instance of the base library\<close>

text \<open>
  Modelled from the spec: the operators of \<^verbatim>\<open>WeilRepModularForm\<close> and of the lattice
  handle (\<^verbatim>\<open>weilrep_modular_forms_class.py\<close>) are not part of mock.py. The spec
  (sections 4.2 and 6) asks of them a truth value, component-wise sums and differences
  that fail on different Gram matrices or weights, scalar multiples, a tensor product
  under which weights add and Gram matrices combine, a precision and a zero form. The
  instance below does this component by component on the Fourier expansion; it serves to
  run the methods of mock.py on concrete forms.
\<close>

text \<open>Modelled from the spec: the sum of two series of the base class (absent from mock.py), coefficient by coefficient up to the smaller precision.\<close>

definition s_add :: "series \<Rightarrow> series \<Rightarrow> series" where
  "s_add f h =
     (let lo = min (sstart f) (sstart h); p = min (sprec f) (sprec h)
      in \<lparr>sstart = lo, scoeffs = map (\<lambda>n. coeff f n + coeff h n) [lo..p - 1], sprec = p\<rparr>)"

text \<open>Modelled from the spec: the multiple of a series of the base class by a scalar.\<close>

definition s_scale :: "rat \<Rightarrow> series \<Rightarrow> series" where
  "s_scale c f = \<lparr>sstart = sstart f, scoeffs = map (\<lambda>x. c * x) (scoeffs f), sprec = sprec f\<rparr>"

text \<open>Modelled from the spec: the product of two series of the base class (absent from mock.py), the Cauchy product up to the precision both factors allow.\<close>

definition s_mul :: "series \<Rightarrow> series \<Rightarrow> series" where
  "s_mul f h =
     (let lo = sstart f + sstart h; p = min (sprec f + sstart h) (sprec h + sstart f)
      in \<lparr>sstart = lo,
          scoeffs = map (\<lambda>n. sum_list (map (\<lambda>i. coeff f i * coeff h (n - i))
                                          [sstart f..n - sstart h])) [lo..p - 1],
          sprec = p\<rparr>)"

text \<open>Modelled from the spec: an operation of the base class applied to every component of the expansion.\<close>

definition map_series :: "(series \<Rightarrow> series) \<Rightarrow> bform \<Rightarrow> bform" where
  "map_series u x =
     \<lparr>bweight = bweight x, bgram = bgram x,
      bfe = map (\<lambda>(g, offset, f). (g, offset, u f)) (bfe x)\<rparr>"

text \<open>Modelled from the spec: the truth value of a base form (absent from mock.py): some component is not zero.\<close>

definition std_bool :: "bform \<Rightarrow> bool" where
  "std_bool x = list_ex (\<lambda>(g, offset, f). \<not> is_zero f) (bfe x)"

text \<open>Modelled from the spec: \<open>+\<close> and \<open>-\<close> of the base class (absent from mock.py), which fail on different Gram matrices or weights (spec, section 4.2).\<close>

definition std_combine :: "(series \<Rightarrow> series \<Rightarrow> series) \<Rightarrow> bform \<Rightarrow> bform \<Rightarrow> error + bform" where
  "std_combine u x y =
     (if bgram x \<noteq> bgram y then Inl (ValueError ''Incompatible Gram matrices'')
      else if bweight x \<noteq> bweight y then Inl (ValueError ''Incompatible weights'')
      else Inr \<lparr>bweight = bweight x, bgram = bgram x,
                bfe = map (\<lambda>((g, offset, f), (g', offset', h)). (g, offset, u f h))
                        (zip (bfe x) (bfe y))\<rparr>)"

text \<open>Modelled from the spec: the direct sum of two lattices (absent from mock.py), as the block diagonal Gram matrix.\<close>

definition block_sum :: "gram \<Rightarrow> gram \<Rightarrow> gram" where
  "block_sum S T =
     map (\<lambda>row. row @ replicate (length T) 0) S @ map (\<lambda>row. replicate (length S) 0 @ row) T"

text \<open>Modelled from the spec: the tensor product of the base class (absent from mock.py): weights add, Gram matrices combine, components multiply pairwise.\<close>

definition std_mul :: "bform \<Rightarrow> bform \<Rightarrow> bform" where
  "std_mul x y =
     \<lparr>bweight = bweight x + bweight y, bgram = block_sum (bgram x) (bgram y),
      bfe = concat (map (\<lambda>(g, offset, f).
                      map (\<lambda>(g', offset', h). (g @ g', offset + offset', s_mul f h)) (bfe y))
                    (bfe x))\<rparr>"

text \<open>Modelled from the spec: \<^verbatim>\<open>precision()\<close> of the base class (absent from mock.py), the least precision of a component.\<close>

definition std_precision :: "bform \<Rightarrow> int" where
  "std_precision x =
     (case bfe x of
        [] \<Rightarrow> 0
      | (g, offset, f) # rest \<Rightarrow> fold (\<lambda>(g', offset', h) p. min (sprec h) p) rest (sprec f))"

text \<open>Modelled from the spec: the zero form \<^verbatim>\<open>w.zero(weight, prec)\<close> of the lattice handle (absent from mock.py), for a scalar-valued form.\<close>

definition std_zero :: "gram \<Rightarrow> rat \<Rightarrow> int \<Rightarrow> bform" where
  "std_zero S k p = \<lparr>bweight = k, bgram = S, bfe = [([], 0, big_oh p)]\<rparr>"

text \<open>Modelled from the spec: the operators of the base class (absent from mock.py) gathered as one instance of the interface.\<close>

definition std_lib :: base_lib where
  "std_lib =
     \<lparr>b_bool = std_bool,
      b_add = std_combine s_add,
      b_sub = std_combine (\<lambda>f h. s_add f (s_scale (- 1) h)),
      b_neg = map_series (s_scale (- 1)),
      b_smul = (\<lambda>c. map_series (s_scale c)),
      b_mul = std_mul,
      b_div = (\<lambda>x c. map_series (s_scale (inverse c)) x),
      b_precision = std_precision,
      w_sum = block_sum,
      w_zero = std_zero\<rparr>"

subsection \<open>Sample forms\<close>

text \<open>Scalar-valued forms on the trivial lattice, with a single component of offset 0.\<close>

definition const_form :: "rat \<Rightarrow> gram \<Rightarrow> rat \<Rightarrow> bform" where
  "const_form k S c =
     \<lparr>bweight = k, bgram = S, bfe = [([], 0, \<lparr>sstart = 0, scoeffs = [c], sprec = 1\<rparr>)]\<rparr>"

definition plain_form :: "bform \<Rightarrow> qform" where
  "plain_form b = \<lparr>qbase = b, qexp = None\<rparr>"

text \<open>A form of depth 1 and weight 2 with terms \<open>[1, 5]\<close>, and one of depth 3 and weight 6
  with terms \<open>[1, 2, 3, 4]\<close>.\<close>

definition q_depth1 :: qform where
  "q_depth1 =
     \<lparr>qbase = const_form 2 [] 5,
      qexp = Some ([const_form 0 [] 1, const_form 2 [] 5], 1)\<rparr>"

definition q_depth3 :: qform where
  "q_depth3 =
     \<lparr>qbase = const_form 6 [] 4,
      qexp = Some ([const_form 0 [] 1, const_form 2 [] 2, const_form 4 [] 3,
                    const_form 6 [] 4], 3)\<rparr>"

text \<open>The series \<open>1 + O(q)\<close>, and two mock forms of weight 2 with shadows of weight 0.\<close>

definition one_series :: series where
  "one_series = \<lparr>sstart = 0, scoeffs = [1], sprec = 1\<rparr>"

definition mock1 :: mform where
  "mock1 = \<lparr>mbase = const_form 2 [] 5, mshadow = const_form 0 [] 3\<rparr>"

definition mock2 :: mform where
  "mock2 = \<lparr>mbase = const_form 2 [] 7, mshadow = const_form 0 [] 4\<rparr>"

text \<open>A form of depth 1 and weight 1 and its derivative; the derivative of the constant 5
  of weight 0.\<close>

definition q_weight1 :: qform where
  "q_weight1 =
     \<lparr>qbase = const_form 1 [] 5, qexp = Some ([const_form (- 1) [] 1, const_form 1 [] 5], 1)\<rparr>"

definition dq_weight1 :: qform where
  "dq_weight1 =
     \<lparr>qbase = \<lparr>bweight = 3, bgram = [],
                bfe = [([], 0, \<lparr>sstart = 0, scoeffs = [0], sprec = 1\<rparr>)]\<rparr>,
      qexp = Some ([const_form 1 [] (- 5),
                    \<lparr>bweight = 3, bgram = [],
                     bfe = [([], 0, \<lparr>sstart = 0, scoeffs = [0], sprec = 1\<rparr>)]\<rparr>], 1)\<rparr>"

definition dq_plain0 :: qform where
  "dq_plain0 =
     \<lparr>qbase = \<lparr>bweight = 2, bgram = [],
                bfe = [([], 0, \<lparr>sstart = 0, scoeffs = [0], sprec = 1\<rparr>)]\<rparr>,
      qexp = None\<rparr>"

text \<open>The shift of \<open>q_depth3\<close>.\<close>

definition shift_q_depth3 :: qform where
  "shift_q_depth3 =
     \<lparr>qbase = const_form (- 3) [] 3,
      qexp = Some ([const_form 0 [] 6, const_form 2 [] 4, const_form 4 [] 3], 2)\<rparr>"

text \<open>
  What the completion needs of the base class: a multiple or a quotient of a true
  (non-zero) form by a scalar other than zero is true.
\<close>

definition scalars_keep_truth :: "base_lib \<Rightarrow> bool" where
  "scalars_keep_truth ops =
     (\<forall>c x. c \<noteq> 0 \<and> b_bool ops x \<longrightarrow>
        b_bool ops (b_smul ops c x) \<and> b_bool ops (b_div ops x c))"

text \<open>The third entry of the completion of \<open>q_depth3\<close>, and its second shift.\<close>

definition comp2_q_depth3 :: qform where
  "comp2_q_depth3 =
     \<lparr>qbase = const_form (- 3) [] 2,
      qexp = Some ([const_form 0 [] 6, const_form 2 [] 2], 1)\<rparr>"

definition shift2_q_depth3 :: qform where
  "shift2_q_depth3 =
     \<lparr>qbase = const_form (- 3) [] 4,
      qexp = Some ([const_form 0 [] 12, const_form 2 [] 4], 1)\<rparr>"

text \<open>The products \<open>t1[i] * t2[j]\<close> with \<open>i + j = m\<close>, in the order in which the double
  loop over the pairs \<open>ps\<close> meets them.\<close>

definition products_at ::
  "base_lib \<Rightarrow> bform list \<Rightarrow> bform list \<Rightarrow> (nat \<times> nat) list \<Rightarrow> nat \<Rightarrow> bform list" where
  "products_at ops t1 t2 ps m =
     map (\<lambda>(i, j). b_mul ops (t1 ! i) (t2 ! j)) (filter (\<lambda>(i, j). i + j = m) ps)"

text \<open>The tensor square of \<open>q_depth1\<close>.\<close>

definition sq_depth1 :: qform where
  "sq_depth1 =
     \<lparr>qbase = const_form 4 [] 25,
      qexp = Some ([const_form 0 [] 1, const_form 2 [] 10, const_form 4 [] 25], 2)\<rparr>"

text \<open>
  A form of depth 1 and weight \<open>5/2\<close> on the lattice of Gram matrix \<open>(-2)\<close>, with two
  components of offsets \<open>0\<close> and \<open>1/4\<close> each, and its derivative.
\<close>

definition theta0 :: bform where
  "theta0 =
     \<lparr>bweight = 1 / 2, bgram = [[- 2]],
      bfe = [([0], 0, \<lparr>sstart = 0, scoeffs = [1, 2], sprec = 2\<rparr>),
             ([1 / 2], 1 / 4, \<lparr>sstart = 0, scoeffs = [1, 1], sprec = 2\<rparr>)]\<rparr>"

definition theta1 :: bform where
  "theta1 =
     \<lparr>bweight = 5 / 2, bgram = [[- 2]],
      bfe = [([0], 0, \<lparr>sstart = 0, scoeffs = [0, 2], sprec = 2\<rparr>),
             ([1 / 2], 1 / 4, \<lparr>sstart = 0, scoeffs = [1 / 2, 1], sprec = 2\<rparr>)]\<rparr>"

definition q_theta :: qform where
  "q_theta = \<lparr>qbase = theta1, qexp = Some ([theta0, theta1], 1)\<rparr>"

definition d_theta0 :: bform where
  "d_theta0 =
     \<lparr>bweight = 5 / 2, bgram = [[- 2]],
      bfe = [([0], 0, \<lparr>sstart = 0, scoeffs = [0, 2], sprec = 2\<rparr>),
             ([1 / 2], 1 / 4, \<lparr>sstart = 0, scoeffs = [1 / 4, 5 / 4], sprec = 2\<rparr>)]\<rparr>"

definition d_theta1 :: bform where
  "d_theta1 =
     \<lparr>bweight = 9 / 2, bgram = [[- 2]],
      bfe = [([0], 0, \<lparr>sstart = 1, scoeffs = [2], sprec = 2\<rparr>),
             ([1 / 2], 1 / 4, \<lparr>sstart = 0, scoeffs = [1 / 8, 5 / 4], sprec = 2\<rparr>)]\<rparr>"

definition dq_theta_terms :: "bform list" where
  "dq_theta_terms =
     [\<lparr>bweight = 1 / 2, bgram = [[- 2]],
       bfe = [([0], 0, \<lparr>sstart = 0, scoeffs = [- (3 / 2), - 3], sprec = 2\<rparr>),
              ([1 / 2], 1 / 4, \<lparr>sstart = 0, scoeffs = [- (3 / 2), - (3 / 2)], sprec = 2\<rparr>)]\<rparr>,
      \<lparr>bweight = 5 / 2, bgram = [[- 2]],
       bfe = [([0], 0, \<lparr>sstart = 0, scoeffs = [0, - 3], sprec = 2\<rparr>),
              ([1 / 2], 1 / 4, \<lparr>sstart = 0, scoeffs = [- 1, - (5 / 4)], sprec = 2\<rparr>)]\<rparr>,
      d_theta1]"

definition dq_theta :: qform where
  "dq_theta =
     \<lparr>qbase = \<lparr>bweight = 9 / 2, bgram = [[- 2]], bfe = bfe d_theta1\<rparr>,
      qexp = Some (dq_theta_terms, 2)\<rparr>"

text \<open>
  A form of depth 1 and weight 2 whose leading term \<open>q + O(q^2)\<close> vanishes at the cusp,
  the list its tensor square accumulates, and its tensor square.
\<close>

definition cusp0 :: bform where
  "cusp0 =
     \<lparr>bweight = 0, bgram = [], bfe = [([], 0, \<lparr>sstart = 0, scoeffs = [0, 1], sprec = 2\<rparr>)]\<rparr>"

definition cusp1 :: bform where
  "cusp1 =
     \<lparr>bweight = 2, bgram = [], bfe = [([], 0, \<lparr>sstart = 0, scoeffs = [1, 3], sprec = 2\<rparr>)]\<rparr>"

definition q_cusp :: qform where
  "q_cusp = \<lparr>qbase = cusp1, qexp = Some ([cusp0, cusp1], 1)\<rparr>"

definition sq_cusp_list :: "bform list" where
  "sq_cusp_list =
     [\<lparr>bweight = 0, bgram = [], bfe = [([], 0, \<lparr>sstart = 0, scoeffs = [0, 0], sprec = 2\<rparr>)]\<rparr>,
      \<lparr>bweight = 2, bgram = [], bfe = [([], 0, \<lparr>sstart = 0, scoeffs = [0, 2], sprec = 2\<rparr>)]\<rparr>,
      \<lparr>bweight = 4, bgram = [], bfe = [([], 0, \<lparr>sstart = 0, scoeffs = [1, 6], sprec = 2\<rparr>)]\<rparr>]"

definition sq_cusp :: qform where
  "sq_cusp =
     \<lparr>qbase = \<lparr>bweight = 4, bgram = [],
                bfe = [([], 0, \<lparr>sstart = 0, scoeffs = [1, 6], sprec = 2\<rparr>)]\<rparr>,
      qexp = Some (drop 1 sq_cusp_list, 1)\<rparr>"

subsection \<open>A contract for the arithmetic of the base class\<close>



text \<open>The value of the coefficient of \<open>(4 pi y)^(-n)\<close> of a form, and the product of two
  coefficient sequences.\<close>

definition cf :: "(bform \<Rightarrow> 'r::comm_semiring_0) \<Rightarrow> qform \<Rightarrow> nat \<Rightarrow> 'r" where
  "cf \<phi> f n = (if n \<le> depth f then \<phi> (terms f ! (depth f - n)) else 0)"


text \<open>Series \<open>x0 + x1 q + O(q^2)\<close> as a semiring: the product drops the term in \<open>q^2\<close>.\<close>

datatype trunc2 = Trunc2 rat rat

instantiation trunc2 :: comm_semiring_0
begin

definition zero_trunc2 :: trunc2 where
  "zero_trunc2 = Trunc2 0 0"

definition plus_trunc2 :: "trunc2 \<Rightarrow> trunc2 \<Rightarrow> trunc2" where
  "plus_trunc2 x y =
     (case x of Trunc2 x0 x1 \<Rightarrow> (case y of Trunc2 y0 y1 \<Rightarrow> Trunc2 (x0 + y0) (x1 + y1)))"

definition times_trunc2 :: "trunc2 \<Rightarrow> trunc2 \<Rightarrow> trunc2" where
  "times_trunc2 x y =
     (case x of Trunc2 x0 x1 \<Rightarrow>
        (case y of Trunc2 y0 y1 \<Rightarrow> Trunc2 (x0 * y0) (x0 * y1 + x1 * y0)))"

instance
proof
  fix x y z :: trunc2
  show "x + y + z = x + (y + z)"
    by (cases x; cases y; cases z) (simp add: plus_trunc2_def)
  show "x + y = y + x"
    by (cases x; cases y) (simp add: plus_trunc2_def)
  show "0 + x = x"
    by (cases x) (simp add: plus_trunc2_def zero_trunc2_def)
  show "x * y * z = x * (y * z)"
    by (cases x; cases y; cases z) (simp add: times_trunc2_def algebra_simps)
  show "x * y = y * x"
    by (cases x; cases y) (simp add: times_trunc2_def algebra_simps)
  show "(x + y) * z = x * z + y * z"
    by (cases x; cases y; cases z) (simp add: times_trunc2_def plus_trunc2_def algebra_simps)
  show "0 * x = 0"
    by (cases x) (simp add: times_trunc2_def zero_trunc2_def)
  show "x * 0 = 0"
    by (cases x) (simp add: times_trunc2_def zero_trunc2_def)
qed

end





section \<open>Properties\<close>

subsection \<open>General lemmas\<close>

lemma sequence_err_map_Inr: "sequence_err (map Inr ys) = Inr ys"
  by (induction ys) auto

lemma sequence_err_Inr_D: "sequence_err xs = Inr ys \<Longrightarrow> xs = map Inr ys"
proof (induction xs arbitrary: ys)
  case Nil
  then show ?case by auto
next
  case (Cons x xs)
  show ?case
  proof (cases x)
    case (Inl e)
    then show ?thesis using Cons.prems by auto
  next
    case (Inr v)
    then show ?thesis using Cons by (auto split: sum.splits)
  qed
qed

lemma sequence_err_Inr_iff: "sequence_err xs = Inr ys \<longleftrightarrow> xs = map Inr ys"
  using sequence_err_Inr_D sequence_err_map_Inr by metis

lemma nth_first_true: "first_true ops ts < length ts \<Longrightarrow> b_bool ops (ts ! first_true ops ts)"
  unfolding first_true_def using nth_length_takeWhile[of "\<lambda>x. \<not> b_bool ops x" ts] by simp

text \<open>Every instance the constructor returns satisfies the invariant, and carries the
  weight and the Gram matrix it was given.\<close>

lemma qinit_wf: "qinit ops k S ts = Inr f \<Longrightarrow> wf_qform ops f"
  by (auto simp: qinit_def wf_qform_def Let_def nth_first_true split: if_splits)

lemma qinit_weight: "qinit ops k S ts = Inr f \<Longrightarrow> bweight (qbase f) = k \<and> bgram (qbase f) = S"
  by (auto simp: qinit_def Let_def split: if_splits)

lemma std_bool_const: "b_bool std_lib (const_form k S c) = (c \<noteq> 0)"
  by (simp add: std_lib_def std_bool_def const_form_def is_zero_def known_def)

subsection \<open>Addition and subtraction\<close>

text \<open>
  C9. When the other operand is false (the zero form, the number 0), \<open>f + x\<close> and \<open>f - x\<close>
  return \<open>f\<close> itself, whatever the Gram matrices and weights are: the test comes before
  both compatibility checks. In the same way a completion plus or minus a false operand
  is that very completion, not a recompleted copy.
\<close>

theorem falsy_operand_returns_self:
  "(qfalsy ops x \<longrightarrow> qadd ops f x = Inr f \<and> qsub ops f x = Inr f) \<and>
   (ahfalsy ops y \<longrightarrow> ah_add ops A y = Inr A \<and> ah_sub ops A y = Inr A)"
  by (simp add: qadd_def qsub_def ah_add_def ah_sub_def)

text \<open>At a zero form of another Gram matrix and weight, at the number 0, and at a
  completion.\<close>

theorem falsy_operand_returns_self_witness:
  "qfalsy std_lib (QForm (plain_form (const_form 4 [[2]] 0))) \<and>
   bgram (qbase q_depth1) \<noteq> bgram (qbase (plain_form (const_form 4 [[2]] 0))) \<and>
   bweight (qbase q_depth1) \<noteq> bweight (qbase (plain_form (const_form 4 [[2]] 0))) \<and>
   qadd std_lib q_depth1 (QForm (plain_form (const_form 4 [[2]] 0))) = Inr q_depth1 \<and>
   qsub std_lib q_depth1 (QForm (plain_form (const_form 4 [[2]] 0))) = Inr q_depth1 \<and>
   qfalsy std_lib (QNum 0) \<and> qadd std_lib q_depth1 (QNum 0) = Inr q_depth1 \<and>
   ahfalsy std_lib (AHNum 0) \<and>
   ah_add std_lib \<lparr>ah_weight = 2, ah_gram = [], ah_list = [q_depth1], ah_depth = 1\<rparr> (AHNum 0)
     = Inr \<lparr>ah_weight = 2, ah_gram = [], ah_list = [q_depth1], ah_depth = 1\<rparr> \<and>
   ah_sub std_lib \<lparr>ah_weight = 2, ah_gram = [], ah_list = [q_depth1], ah_depth = 1\<rparr> (AHNum 0)
     = Inr \<lparr>ah_weight = 2, ah_gram = [], ah_list = [q_depth1], ah_depth = 1\<rparr>"
proof -
  have h1: "qfalsy std_lib (QForm (plain_form (const_form 4 [[2]] 0)))"
    by (simp add: qfalsy_def plain_form_def std_bool_const)
  have h2: "qfalsy std_lib (QNum 0)" by (simp add: qfalsy_def)
  have h3: "ahfalsy std_lib (AHNum 0)" by (simp add: ahfalsy_def)
  have g: "bgram (qbase q_depth1) \<noteq> bgram (qbase (plain_form (const_form 4 [[2]] 0)))"
    "bweight (qbase q_depth1) \<noteq> bweight (qbase (plain_form (const_form 4 [[2]] 0)))"
    by (simp_all add: q_depth1_def plain_form_def const_form_def)
  show ?thesis
    using h1 h2 h3 g
      falsy_operand_returns_self[of std_lib "QForm (plain_form (const_form 4 [[2]] 0))" q_depth1
        "AHNum 0" "\<lparr>ah_weight = 2, ah_gram = [], ah_list = [q_depth1], ah_depth = 1\<rparr>"]
      falsy_operand_returns_self[of std_lib "QNum 0" q_depth1
        "AHNum 0" "\<lparr>ah_weight = 2, ah_gram = [], ah_list = [q_depth1], ah_depth = 1\<rparr>"]
    by simp
qed

text \<open>
  C5, as amended. When the other operand is a form that is true, \<open>+\<close> and \<open>-\<close> fail with
  the error on Gram matrices if these differ, and with the error on weights if the Gram
  matrices agree and the weights differ. The result does not depend on the operators of
  the base class: no term is combined before the checks.
\<close>

theorem incompatible_operands_fail:
  "\<not> qfalsy ops (QForm g) \<Longrightarrow>
   (bgram (qbase f) \<noteq> bgram (qbase g) \<longrightarrow>
      qadd ops f (QForm g) = Inl (ValueError ''Incompatible Gram matrices'') \<and>
      qsub ops f (QForm g) = Inl (ValueError ''Incompatible Gram matrices'')) \<and>
   (bgram (qbase f) = bgram (qbase g) \<and> bweight (qbase f) \<noteq> bweight (qbase g) \<longrightarrow>
      qadd ops f (QForm g) = Inl (ValueError ''Incompatible weights'') \<and>
      qsub ops f (QForm g) = Inl (ValueError ''Incompatible weights''))"
  by (simp add: qadd_def qsub_def)

theorem incompatible_operands_fail_witness:
  "\<not> qfalsy std_lib (QForm (plain_form (const_form 2 [[2]] 7))) \<and>
   bgram (qbase q_depth1) \<noteq> bgram (qbase (plain_form (const_form 2 [[2]] 7))) \<and>
   qadd std_lib q_depth1 (QForm (plain_form (const_form 2 [[2]] 7)))
     = Inl (ValueError ''Incompatible Gram matrices'') \<and>
   qsub std_lib q_depth1 (QForm (plain_form (const_form 2 [[2]] 7)))
     = Inl (ValueError ''Incompatible Gram matrices'') \<and>
   \<not> qfalsy std_lib (QForm (plain_form (const_form 4 [] 7))) \<and>
   bgram (qbase q_depth1) = bgram (qbase (plain_form (const_form 4 [] 7))) \<and>
   bweight (qbase q_depth1) \<noteq> bweight (qbase (plain_form (const_form 4 [] 7))) \<and>
   qadd std_lib q_depth1 (QForm (plain_form (const_form 4 [] 7)))
     = Inl (ValueError ''Incompatible weights'') \<and>
   qsub std_lib q_depth1 (QForm (plain_form (const_form 4 [] 7)))
     = Inl (ValueError ''Incompatible weights'')"
proof -
  have h1: "\<not> qfalsy std_lib (QForm (plain_form (const_form 2 [[2]] 7)))"
    and h2: "\<not> qfalsy std_lib (QForm (plain_form (const_form 4 [] 7)))"
    by (simp_all add: qfalsy_def plain_form_def std_bool_const)
  have g: "bgram (qbase q_depth1) \<noteq> bgram (qbase (plain_form (const_form 2 [[2]] 7)))"
    "bgram (qbase q_depth1) = bgram (qbase (plain_form (const_form 4 [] 7)))"
    "bweight (qbase q_depth1) \<noteq> bweight (qbase (plain_form (const_form 4 [] 7)))"
    by (simp_all add: q_depth1_def plain_form_def const_form_def)
  show ?thesis
    using h1 h2 g incompatible_operands_fail[OF h1, of q_depth1]
      incompatible_operands_fail[OF h2, of q_depth1]
    by simp
qed

text \<open>The claim as written fails: a zero form of another Gram matrix is added and
  subtracted without any error.\<close>

theorem incompatible_gram_counterexample:
  "bgram (qbase q_depth1) \<noteq> bgram (qbase (plain_form (const_form 2 [[2]] 0))) \<and>
   qadd std_lib q_depth1 (QForm (plain_form (const_form 2 [[2]] 0))) = Inr q_depth1 \<and>
   qsub std_lib q_depth1 (QForm (plain_form (const_form 2 [[2]] 0))) = Inr q_depth1"
  by (simp add: qadd_def qsub_def qfalsy_def plain_form_def std_bool_const)
     (simp add: q_depth1_def const_form_def)

subsection \<open>The series derivative\<close>

lemma known_poly_bigoh: "known (poly_bigoh v cs p) = take (nat (p - v)) cs"
  by (simp add: known_def poly_bigoh_def)

lemma coeff_poly_bigoh:
  "v \<le> n \<Longrightarrow> n < p \<Longrightarrow> nat (n - v) < length cs \<Longrightarrow>
   coeff (poly_bigoh v cs p) n = cs ! nat (n - v)"
  by (simp add: coeff_def known_poly_bigoh) (simp add: poly_bigoh_def)

text \<open>
  C7, as amended. For a series \<open>f\<close> that is not zero, of valuation \<open>val\<close> and precision
  \<open>prec\<close>, the local function \<open>a\<close> of \<^verbatim>\<open>derivative\<close> returns a series of precision
  \<open>prec - floor(offset)\<close> whose coefficient at \<open>n\<close> is \<open>(n + offset) * f[n]\<close> for every
  \<open>n\<close> in \<open>[val, prec)\<close> that lies below the new precision (all of them as soon as
  \<open>offset < 1\<close>). For a zero series it returns \<open>O(q^prec)\<close>.
\<close>

theorem series_derivative:
  "(is_zero f \<longrightarrow>
      a offset f = big_oh (sprec f) \<and> is_zero (a offset f) \<and> sprec (a offset f) = sprec f) \<and>
   (\<not> is_zero f \<longrightarrow>
      sprec (a offset f) = sprec f - \<lfloor>offset\<rfloor> \<and>
      (\<forall>n. valuation f \<le> n \<and> n < sprec f \<and> n < sprec f - \<lfloor>offset\<rfloor> \<longrightarrow>
         sget (a offset f) n = Inr ((of_int n + offset) * coeff f n)))"
proof (intro conjI impI allI)
  assume z: "is_zero f"
  show "a offset f = big_oh (sprec f)" using z by (simp add: a_def)
  show "is_zero (a offset f)" using z by (simp add: a_def big_oh_def is_zero_def known_def)
  show "sprec (a offset f) = sprec f" using z by (simp add: a_def big_oh_def)
next
  assume nz: "\<not> is_zero f"
  show "sprec (a offset f) = sprec f - \<lfloor>offset\<rfloor>"
    using nz by (simp add: a_def Let_def poly_bigoh_def)
next
  fix n
  assume nz: "\<not> is_zero f"
    and n: "valuation f \<le> n \<and> n < sprec f \<and> n < sprec f - \<lfloor>offset\<rfloor>"
  let ?cs = "map (\<lambda>i. (of_int i + offset) * coeff f i) [valuation f..sprec f - 1]"
  have eq: "a offset f = poly_bigoh (valuation f) ?cs (sprec f - \<lfloor>offset\<rfloor>)"
    using nz by (simp add: a_def Let_def)
  have len: "nat (n - valuation f) < length ?cs" using n by simp
  have "coeff (a offset f) n = ?cs ! nat (n - valuation f)"
    unfolding eq using n len by (intro coeff_poly_bigoh) auto
  also have "\<dots> = (of_int n + offset) * coeff f n"
    using n by simp
  finally have "coeff (a offset f) n = (of_int n + offset) * coeff f n" .
  moreover have "\<not> sprec (a offset f) \<le> n"
    using n by (simp add: eq poly_bigoh_def)
  ultimately show "sget (a offset f) n = Inr ((of_int n + offset) * coeff f n)"
    by (simp add: sget_def)
qed


lemma one_series_facts: "\<not> is_zero one_series" "valuation one_series = 0" "sprec one_series = 1"
  "coeff one_series 0 = 1"
  by (simp_all add: one_series_def is_zero_def known_def valuation_def coeff_def)

theorem series_derivative_witness:
  "\<not> is_zero \<lparr>sstart = 0, scoeffs = [0, 3, 5], sprec = 3\<rparr> \<and>
   valuation \<lparr>sstart = 0, scoeffs = [0, 3, 5], sprec = 3\<rparr> \<le> 2 \<and>
   sprec (a (- 1 / 2) \<lparr>sstart = 0, scoeffs = [0, 3, 5], sprec = 3\<rparr>) = 4 \<and>
   sget (a (- 1 / 2) \<lparr>sstart = 0, scoeffs = [0, 3, 5], sprec = 3\<rparr>) 2 = Inr (15 / 2) \<and>
   is_zero (big_oh 5) \<and> a (- 1 / 2) (big_oh 5) = big_oh 5"
proof -
  let ?f = "\<lparr>sstart = 0, scoeffs = [0, 3, 5], sprec = 3\<rparr>"
  have nz: "\<not> is_zero ?f" by (simp add: is_zero_def known_def)
  have v: "valuation ?f = 1" by (simp add: valuation_def is_zero_def known_def)
  have c: "coeff ?f 2 = 5" by (simp add: coeff_def known_def)
  have fl: "\<lfloor>- (1 / 2) :: rat\<rfloor> = - 1" by (rule floor_unique) simp_all
  have z: "is_zero (big_oh 5)" by (simp add: is_zero_def known_def big_oh_def)
  have p: "sprec (big_oh 5) = 5" by (simp add: big_oh_def)
  show ?thesis
    using nz v c fl z p series_derivative[of ?f "- 1 / 2"] series_derivative[of "big_oh 5" "- 1 / 2"]
    by simp
qed

text \<open>The claim as written fails at offset 1 on \<open>1 + O(q)\<close>: the precision drops to 0
  and the coefficient at 0 is no longer known.\<close>

theorem series_derivative_counterexample:
  "\<not> is_zero one_series \<and> valuation one_series \<le> 0 \<and> 0 < sprec one_series \<and>
   sget (a 1 one_series) 0 \<noteq> Inr ((of_int 0 + 1) * coeff one_series 0) \<and>
   sget (a 1 one_series) 0 = Inl IndexError"
  by (simp add: one_series_facts a_def sget_def poly_bigoh_def)

subsection \<open>Mock modular forms\<close>

lemma const_sum [simp]:
  "std_combine s_add (const_form k S c) (const_form k S c') = Inr (const_form k S (c + c'))"
  by (simp add: std_combine_def const_form_def s_add_def coeff_def known_def upto.simps)

lemma const_diff [simp]:
  "std_combine (\<lambda>f h. s_add f (s_scale (- 1) h)) (const_form k S c) (const_form k S c')
     = Inr (const_form k S (c - c'))"
  by (simp add: std_combine_def const_form_def s_add_def s_scale_def coeff_def known_def upto.simps)

lemma const_scale [simp]:
  "map_series (s_scale c) (const_form k S c') = const_form k S (c * c')"
  by (simp add: map_series_def const_form_def s_scale_def)

text \<open>
  C8. Of a mock form \<open>m\<close>: \<open>m + x\<close> and \<open>m - x\<close> return the sum, respectively the
  difference, of the two shadows when \<open>x\<close> is a mock form, and the shadow of \<open>m\<close> when it is
  not; they return exactly when the operators of the base class do. The product with a
  scalar scales the expansion and the shadow by it. The quotient multiplies by \<^verbatim>\<open>~c\<close>:
  for an element \<open>c\<close> of Sage's \<^verbatim>\<open>QQ\<close> this is \<open>1/c\<close> and the shadow is scaled by \<open>1/c\<close>
  (at \<open>c = 0\<close> the inverse raises); for a Python integer \<open>n\<close> it is the bitwise complement,
  and expansion and shadow are scaled by \<open>-n - 1\<close>, not by \<open>1/n\<close>, and nothing is raised at
  \<open>n = 0\<close>. The product with anything else and \<^verbatim>\<open>derivative\<close> give \<^verbatim>\<open>NotImplemented\<close>.
\<close>

theorem mock_arithmetic:
  "(mock_add ops m (IsMock m') = Inr u \<longrightarrow> b_add ops (mshadow m) (mshadow m') = Inr (mshadow u)) \<and>
   (mock_sub ops m (IsMock m') = Inr u \<longrightarrow> b_sub ops (mshadow m) (mshadow m') = Inr (mshadow u)) \<and>
   (mock_add ops m (NotMock b) = Inr u \<longrightarrow> mshadow u = mshadow m) \<and>
   (mock_sub ops m (NotMock b) = Inr u \<longrightarrow> mshadow u = mshadow m) \<and>
   ((\<exists>v. mock_add ops m (IsMock m') = Inr v) \<longleftrightarrow>
      (\<exists>f s. b_add ops (mbase m) (mbase m') = Inr f \<and> b_add ops (mshadow m) (mshadow m') = Inr s)) \<and>
   ((\<exists>v. mock_sub ops m (IsMock m') = Inr v) \<longleftrightarrow>
      (\<exists>f s. b_sub ops (mbase m) (mbase m') = Inr f \<and> b_sub ops (mshadow m) (mshadow m') = Inr s)) \<and>
   ((\<exists>v. mock_add ops m (NotMock b) = Inr v) \<longleftrightarrow> (\<exists>f. b_add ops (mbase m) b = Inr f)) \<and>
   ((\<exists>v. mock_sub ops m (NotMock b) = Inr v) \<longleftrightarrow> (\<exists>f. b_sub ops (mbase m) b = Inr f)) \<and>
   (\<exists>v. mock_mul ops m (Scalar c) = Inr v \<and> mshadow v = b_smul ops c (mshadow m) \<and>
        bfe (mbase v) = bfe (b_smul ops c (mbase m))) \<and>
   (\<exists>v. mock_mul ops m (PyInt n) = Inr v \<and> mshadow v = b_smul ops (of_int n) (mshadow m) \<and>
        bfe (mbase v) = bfe (b_smul ops (of_int n) (mbase m))) \<and>
   (c \<noteq> 0 \<longrightarrow>
      (\<exists>v. mock_truediv ops m (Scalar c) = Inr v \<and> mshadow v = b_smul ops (1 / c) (mshadow m) \<and>
           bfe (mbase v) = bfe (b_smul ops (1 / c) (mbase m)))) \<and>
   mock_truediv ops m (Scalar 0) = Inl ZeroDivisionError \<and>
   (\<exists>v. mock_truediv ops m (PyInt n) = Inr v \<and>
        mshadow v = b_smul ops (of_int (- n - 1)) (mshadow m) \<and>
        bfe (mbase v) = bfe (b_smul ops (of_int (- n - 1)) (mbase m))) \<and>
   mock_mul ops m (NonScalar y) = Inl NotImplemented \<and>
   mock_derivative m = Inl NotImplemented"
  by (auto simp: mock_add_def mock_sub_def mock_mul_def mock_truediv_def mock_derivative_def
      mock_init_def operand_form_def scalar_value_def invert_def inverse_eq_divide
      split: sum.splits)

theorem mock_arithmetic_witness:
  "mock_add std_lib mock1 (IsMock mock2)
     = Inr \<lparr>mbase = const_form 2 [] 12, mshadow = const_form 0 [] 7\<rparr> \<and>
   b_add std_lib (mshadow mock1) (mshadow mock2) = Inr (const_form 0 [] 7) \<and>
   mock_sub std_lib mock1 (IsMock mock2)
     = Inr \<lparr>mbase = const_form 2 [] (- 2), mshadow = const_form 0 [] (- 1)\<rparr> \<and>
   b_sub std_lib (mshadow mock1) (mshadow mock2) = Inr (const_form 0 [] (- 1)) \<and>
   mock_add std_lib mock1 (NotMock (const_form 2 [] 1))
     = Inr \<lparr>mbase = const_form 2 [] 6, mshadow = const_form 0 [] 3\<rparr> \<and>
   mock_sub std_lib mock1 (NotMock (const_form 2 [] 1))
     = Inr \<lparr>mbase = const_form 2 [] 4, mshadow = const_form 0 [] 3\<rparr> \<and>
   mshadow mock1 = const_form 0 [] 3 \<and>
   (2::rat) \<noteq> 0 \<and>
   mock_truediv std_lib mock1 (Scalar 2)
     = Inr \<lparr>mbase = const_form 2 [] (5 / 2), mshadow = const_form 0 [] (3 / 2)\<rparr> \<and>
   (\<exists>v. mock_truediv std_lib mock1 (Scalar 2) = Inr v \<and>
        mshadow v = b_smul std_lib (1 / 2) (mshadow mock1) \<and>
        bfe (mbase v) = bfe (b_smul std_lib (1 / 2) (mbase mock1))) \<and>
   mock_truediv std_lib mock1 (PyInt 2)
     = Inr \<lparr>mbase = const_form 2 [] (- 15), mshadow = const_form 0 [] (- 9)\<rparr> \<and>
   (\<exists>v. mock_truediv std_lib mock1 (PyInt 2) = Inr v \<and>
        mshadow v = b_smul std_lib (of_int (- 2 - 1)) (mshadow mock1) \<and>
        bfe (mbase v) = bfe (b_smul std_lib (of_int (- 2 - 1)) (mbase mock1)))"
proof -
  have e1: "mock_add std_lib mock1 (IsMock mock2)
     = Inr \<lparr>mbase = const_form 2 [] 12, mshadow = const_form 0 [] 7\<rparr>"
    by (simp add: mock_add_def mock1_def mock2_def std_lib_def operand_form_def mock_init_def)
       (simp add: const_form_def)
  have e2: "mock_sub std_lib mock1 (IsMock mock2)
     = Inr \<lparr>mbase = const_form 2 [] (- 2), mshadow = const_form 0 [] (- 1)\<rparr>"
    by (simp add: mock_sub_def mock1_def mock2_def std_lib_def operand_form_def mock_init_def)
       (simp add: const_form_def)
  have e3: "mock_add std_lib mock1 (NotMock (const_form 2 [] 1))
     = Inr \<lparr>mbase = const_form 2 [] 6, mshadow = const_form 0 [] 3\<rparr>"
    by (simp add: mock_add_def mock1_def std_lib_def operand_form_def mock_init_def)
       (simp add: const_form_def)
  have e4: "mock_sub std_lib mock1 (NotMock (const_form 2 [] 1))
     = Inr \<lparr>mbase = const_form 2 [] 4, mshadow = const_form 0 [] 3\<rparr>"
    by (simp add: mock_sub_def mock1_def std_lib_def operand_form_def mock_init_def)
       (simp add: const_form_def)
  have e5: "mock_truediv std_lib mock1 (Scalar 2)
     = Inr \<lparr>mbase = const_form 2 [] (5 / 2), mshadow = const_form 0 [] (3 / 2)\<rparr>"
    by (simp add: mock_truediv_def invert_def mock_mul_def scalar_value_def mock1_def std_lib_def
        mock_init_def)
       (simp add: const_form_def)
  have e6: "mock_truediv std_lib mock1 (PyInt 2)
     = Inr \<lparr>mbase = const_form 2 [] (- 15), mshadow = const_form 0 [] (- 9)\<rparr>"
    by (simp add: mock_truediv_def invert_def mock_mul_def scalar_value_def mock1_def std_lib_def
        mock_init_def)
       (simp add: const_form_def)
  have s: "mshadow mock1 = const_form 0 [] 3" by (simp add: mock1_def)
  note t1 = mock_arithmetic[of std_lib mock1 mock2
      "\<lparr>mbase = const_form 2 [] 12, mshadow = const_form 0 [] 7\<rparr>" _ 2 2]
  note t2 = mock_arithmetic[of std_lib mock1 mock2
      "\<lparr>mbase = const_form 2 [] (- 2), mshadow = const_form 0 [] (- 1)\<rparr>" _ 2 2]
  show ?thesis
    using e1 e2 e3 e4 e5 e6 s t1 t2 by simp
qed

text \<open>The claim as written fails at a Python integer: \<open>m / 2\<close> is \<open>m * (-3)\<close>, the shadow
  \<open>3\<close> becomes \<open>-9\<close> and not \<open>3/2\<close>; and \<open>m / 0\<close> is \<open>m * (-1)\<close> instead of an error.\<close>

theorem mock_division_counterexample:
  "mock_truediv std_lib mock1 (PyInt 2)
     = Inr \<lparr>mbase = const_form 2 [] (- 15), mshadow = const_form 0 [] (- 9)\<rparr> \<and>
   b_smul std_lib (1 / 2) (mshadow mock1) = const_form 0 [] (3 / 2) \<and>
   const_form 0 [] (- 9) \<noteq> const_form 0 [] (3 / 2) \<and>
   mock_truediv std_lib mock1 (PyInt 0)
     = Inr \<lparr>mbase = const_form 2 [] (- 5), mshadow = const_form 0 [] (- 3)\<rparr>"
proof -
  have e1: "mock_truediv std_lib mock1 (PyInt 2)
     = Inr \<lparr>mbase = const_form 2 [] (- 15), mshadow = const_form 0 [] (- 9)\<rparr>"
    by (simp add: mock_truediv_def invert_def mock_mul_def scalar_value_def mock1_def std_lib_def
        mock_init_def)
       (simp add: const_form_def)
  have e2: "mock_truediv std_lib mock1 (PyInt 0)
     = Inr \<lparr>mbase = const_form 2 [] (- 5), mshadow = const_form 0 [] (- 3)\<rparr>"
    by (simp add: mock_truediv_def invert_def mock_mul_def scalar_value_def mock1_def std_lib_def
        mock_init_def)
       (simp add: const_form_def)
  have e3: "b_smul std_lib (1 / 2) (mshadow mock1) = const_form 0 [] (3 / 2)"
    by (simp add: mock1_def std_lib_def)
  have e4: "const_form 0 [] (- 9) \<noteq> const_form 0 [] (3 / 2)"
    by (simp add: const_form_def)
  show ?thesis using e1 e2 e3 e4 by blast
qed

subsection \<open>The derivative\<close>

lemma wf_length: "wf_qform ops f \<Longrightarrow> length (terms f) = depth f + 1"
  by (auto simp: wf_qform_def terms_def depth_def split: option.splits)

lemma derivative_terms_length: "length (derivative_terms ops f) = depth f + 2"
  by (simp add: derivative_terms_def Let_def)

lemma derivative_terms_nth:
  "derivative_terms ops f ! 0 =
     Inr (b_smul ops (of_nat (depth f) - bweight (qbase f)) (terms f ! 0))"
  "1 \<le> j \<Longrightarrow> j \<le> depth f \<Longrightarrow>
   derivative_terms ops f ! j =
     b_add ops (b_smul ops (of_nat (depth f) - bweight (qbase f) - of_nat j) (terms f ! j))
       (d (bgram (qbase f)) (terms f ! (j - 1)))"
  "derivative_terms ops f ! Suc (depth f) = Inr (d (bgram (qbase f)) (last (terms f)))"
proof -
  show "derivative_terms ops f ! 0 =
     Inr (b_smul ops (of_nat (depth f) - bweight (qbase f)) (terms f ! 0))"
    by (simp add: derivative_terms_def Let_def)
  show "derivative_terms ops f ! Suc (depth f) = Inr (d (bgram (qbase f)) (last (terms f)))"
    by (simp add: derivative_terms_def Let_def nth_append)
  assume j: "1 \<le> j" "j \<le> depth f"
  then obtain i where i: "j = Suc i" "i < depth f" by (cases j) auto
  show "derivative_terms ops f ! j =
     b_add ops (b_smul ops (of_nat (depth f) - bweight (qbase f) - of_nat j) (terms f ! j))
       (d (bgram (qbase f)) (terms f ! (j - 1)))"
    using i by (simp add: derivative_terms_def Let_def nth_append del: upt_Suc)
qed

lemma derivative_terms_eq:
  "derivative_terms ops f = map Inr X \<longleftrightarrow>
     length X = depth f + 2 \<and>
     X ! 0 = b_smul ops (of_nat (depth f) - bweight (qbase f)) (terms f ! 0) \<and>
     (\<forall>j. 1 \<le> j \<and> j \<le> depth f \<longrightarrow>
        b_add ops (b_smul ops (of_nat (depth f) - bweight (qbase f) - of_nat j) (terms f ! j))
          (d (bgram (qbase f)) (terms f ! (j - 1))) = Inr (X ! j)) \<and>
     X ! (depth f + 1) = d (bgram (qbase f)) (last (terms f))"
  (is "?L \<longleftrightarrow> ?R")
proof
  assume L: ?L
  have len: "length X = depth f + 2"
    using arg_cong[OF L, of length] by (simp add: derivative_terms_length)
  have nth: "\<And>i. i < depth f + 2 \<Longrightarrow> derivative_terms ops f ! i = Inr (X ! i)"
    using L len by simp
  show ?R
  proof (intro conjI allI impI)
    show "length X = depth f + 2" by (rule len)
    show "X ! 0 = b_smul ops (of_nat (depth f) - bweight (qbase f)) (terms f ! 0)"
      using nth[of 0] by (simp add: derivative_terms_nth(1))
    show "X ! (depth f + 1) = d (bgram (qbase f)) (last (terms f))"
      using nth[of "depth f + 1"] derivative_terms_nth(3)[of ops f] by simp
    fix j assume j: "1 \<le> j \<and> j \<le> depth f"
    then have "derivative_terms ops f ! j = Inr (X ! j)" by (intro nth) simp
    then show "b_add ops
        (b_smul ops (of_nat (depth f) - bweight (qbase f) - of_nat j) (terms f ! j))
        (d (bgram (qbase f)) (terms f ! (j - 1))) = Inr (X ! j)"
      using j derivative_terms_nth(2)[where j = j and f = f and ops = ops] by simp
  qed
next
  assume R: ?R
  show ?L
  proof (rule nth_equalityI)
    show "length (derivative_terms ops f) = length (map Inr X)"
      using R by (simp add: derivative_terms_length)
    fix i assume "i < length (derivative_terms ops f)"
    then have i: "i < depth f + 2" by (simp add: derivative_terms_length)
    consider "i = 0" | "1 \<le> i \<and> i \<le> depth f" | "i = depth f + 1" using i by linarith
    then show "derivative_terms ops f ! i = map Inr X ! i"
    proof cases
      case 1
      then show ?thesis using R by (simp add: derivative_terms_nth(1))
    next
      case 2
      then show ?thesis
        using R i derivative_terms_nth(2)[where j = i and f = f and ops = ops] by simp
    next
      case 3
      then show ?thesis using R by (simp add: derivative_terms_nth(3))
    qed
  qed
qed

lemma derivative_Inr_iff:
  "derivative ops f = Inr g \<longleftrightarrow>
     bfe (qbase f) \<noteq> [] \<and>
     (\<exists>X. derivative_terms ops f = map Inr X \<and>
          qinit ops (bweight (qbase f) + 2) (bgram (qbase f)) X = Inr g)"
proof -
  have "derivative ops f = Inr g \<longleftrightarrow>
          bfe (qbase f) \<noteq> [] \<and>
          (\<exists>X. sequence_err (derivative_terms ops f) = Inr X \<and>
               qinit ops (bweight (qbase f) + 2) (bgram (qbase f)) X = Inr g)"
    by (auto simp: derivative_def split: sum.splits)
  then show ?thesis by (simp add: sequence_err_Inr_iff)
qed

lemma wf_last: "wf_qform ops f \<Longrightarrow> last (terms f) = terms f ! depth f"
proof -
  assume wf: "wf_qform ops f"
  have ne: "terms f \<noteq> []" using wf_length[OF wf] by auto
  show ?thesis using last_conv_nth[OF ne] wf_length[OF wf] by simp
qed

text \<open>What \<open>a\<close> leaves of the coefficients: below the valuation and from the precision on,
  a series has no coefficient but zero.\<close>

lemma coeff_below_valuation:
  assumes "\<not> is_zero f" "n < valuation f"
  shows "coeff f n = 0"
proof (cases "sstart f \<le> n \<and> nat (n - sstart f) < length (known f)")
  case False
  then show ?thesis by (auto simp: coeff_def)
next
  case True
  let ?P = "\<lambda>c::rat. c = 0"
  let ?i = "nat (n - sstart f)"
  have i: "?i < length (takeWhile ?P (known f))"
    using assms True by (auto simp: valuation_def nat_less_iff)
  then have "takeWhile ?P (known f) ! ?i \<in> set (takeWhile ?P (known f))" by (rule nth_mem)
  then have "takeWhile ?P (known f) ! ?i = 0" by (rule set_takeWhileD[THEN conjunct2])
  moreover have "takeWhile ?P (known f) ! ?i = known f ! ?i" using i by (rule takeWhile_nth)
  ultimately show ?thesis using True by (simp add: coeff_def)
qed

lemma length_known_le: "int (length (known f)) \<le> max 0 (sprec f - sstart f)"
  by (simp add: known_def)

lemma coeff_beyond_prec: "sprec f \<le> n \<Longrightarrow> coeff f n = 0"
  using length_known_le[of f] by (auto simp: coeff_def)

lemma coeff_poly_bigoh_beyond:
  assumes "length cs \<le> nat (n - v)"
  shows "coeff (poly_bigoh v cs p) n = 0"
  unfolding coeff_def known_poly_bigoh using assms by (auto simp: poly_bigoh_def)

lemma a_nonzero:
  "\<not> is_zero f \<Longrightarrow>
   a offset f =
     poly_bigoh (valuation f)
       (map (\<lambda>i. (of_int i + offset) * coeff f i) [valuation f..sprec f - 1])
       (sprec f - \<lfloor>offset\<rfloor>)"
  by (simp add: a_def Let_def)

lemma a_coefficients:
  assumes nz: "\<not> is_zero f" and n: "n < sprec f - \<lfloor>offset\<rfloor>"
  shows "sget (a offset f) n = Inr ((of_int n + offset) * coeff f n)"
proof -
  let ?cs = "map (\<lambda>i. (of_int i + offset) * coeff f i) [valuation f..sprec f - 1]"
  note eq = a_nonzero[OF nz, of offset]
  have p: "\<not> sprec (a offset f) \<le> n" using n by (simp add: eq poly_bigoh_def)
  have "coeff (a offset f) n = (of_int n + offset) * coeff f n"
  proof -
    consider "n < valuation f" | "valuation f \<le> n \<and> n < sprec f" | "sprec f \<le> n" by linarith
    then show ?thesis
    proof cases
      case 1
      have "coeff (a offset f) n = 0" using 1 by (simp add: eq coeff_def poly_bigoh_def)
      then show ?thesis using coeff_below_valuation[OF nz 1] by simp
    next
      case 2
      have len: "nat (n - valuation f) < length ?cs" using 2 by simp
      have "coeff (a offset f) n = ?cs ! nat (n - valuation f)"
        unfolding eq using 2 n len by (intro coeff_poly_bigoh) auto
      also have "\<dots> = (of_int n + offset) * coeff f n" using 2 by simp
      finally show ?thesis .
    next
      case 3
      have "length ?cs \<le> nat (n - valuation f)" using 3 by simp
      then have "coeff (a offset f) n = 0"
        unfolding eq by (rule coeff_poly_bigoh_beyond)
      then show ?thesis using coeff_beyond_prec[OF 3] by simp
    qed
  qed
  then show ?thesis using p by (simp add: sget_def)
qed

lemma d_component:
  assumes "c < length (bfe x)"
  shows "\<exists>\<gamma> offset s. bfe x ! c = (\<gamma>, offset, s) \<and> bfe (d S x) ! c = (\<gamma>, offset, a offset s)"
proof -
  obtain \<gamma> offset s where "bfe x ! c = (\<gamma>, offset, s)" by (cases "bfe x ! c")
  then show ?thesis using assms by (simp add: d_def)
qed

text \<open>
  C1. For a form \<open>f\<close> of depth \<open>r\<close>, weight \<open>k\<close> and terms \<open>t[0..r]\<close>, \<^verbatim>\<open>derivative\<close>
  returns \<open>g\<close> exactly when the expansion of \<open>f\<close> has a first component and \<open>g\<close> is what
  the constructor makes, with weight \<open>k + 2\<close>, of the list \<open>X\<close> of \<open>r + 2\<close> terms with
  \<open>X[0] = (r - k) * t[0]\<close>, \<open>X[j] = (r - k - j) * t[j] + D(t[j - 1])\<close> for \<open>1 \<le> j \<le> r\<close>
  (each sum being one the base class returns) and \<open>X[r + 1] = D(t[r])\<close>. Here \<open>D\<close> is the
  derivative of q-series, component by component: \<open>D(x)\<close> has the weight of \<open>x\<close> plus 2, the
  Gram matrix of \<open>f\<close>, and the components of \<open>x\<close> with their labels and offsets, the series
  \<open>s\<close> of offset \<open>o\<close> replaced by the series of precision \<open>prec - floor(o)\<close> whose coefficient
  at every \<open>n\<close> below that precision is \<open>(n + o) * s[n]\<close> (by \<open>O(q^prec)\<close> when \<open>s\<close> is zero).
\<close>

theorem derivative_recurrence:
  assumes "wf_qform ops f"
  shows "(derivative ops f = Inr g \<longleftrightarrow>
            bfe (qbase f) \<noteq> [] \<and>
            (\<exists>X. length X = depth f + 2 \<and>
               X ! 0 = b_smul ops (of_nat (depth f) - bweight (qbase f)) (terms f ! 0) \<and>
               (\<forall>j. 1 \<le> j \<and> j \<le> depth f \<longrightarrow>
                  b_add ops
                    (b_smul ops (of_nat (depth f) - bweight (qbase f) - of_nat j) (terms f ! j))
                    (d (bgram (qbase f)) (terms f ! (j - 1))) = Inr (X ! j)) \<and>
               X ! (depth f + 1) = d (bgram (qbase f)) (terms f ! depth f) \<and>
               qinit ops (bweight (qbase f) + 2) (bgram (qbase f)) X = Inr g)) \<and>
         (derivative ops f = Inr g \<longrightarrow> bweight (qbase g) = bweight (qbase f) + 2) \<and>
         bweight (d S x) = bweight x + 2 \<and> bgram (d S x) = S \<and>
         length (bfe (d S x)) = length (bfe x) \<and>
         (\<forall>c < length (bfe x).
            \<exists>\<gamma> offset s.
              bfe x ! c = (\<gamma>, offset, s) \<and> bfe (d S x) ! c = (\<gamma>, offset, a offset s) \<and>
              (is_zero s \<longrightarrow> a offset s = big_oh (sprec s)) \<and>
              (\<not> is_zero s \<longrightarrow>
                 sprec (a offset s) = sprec s - \<lfloor>offset\<rfloor> \<and>
                 (\<forall>n < sprec s - \<lfloor>offset\<rfloor>.
                    sget (a offset s) n = Inr ((of_int n + offset) * coeff s n))))"
proof (intro conjI)
  show "derivative ops f = Inr g \<longleftrightarrow>
            bfe (qbase f) \<noteq> [] \<and>
            (\<exists>X. length X = depth f + 2 \<and>
               X ! 0 = b_smul ops (of_nat (depth f) - bweight (qbase f)) (terms f ! 0) \<and>
               (\<forall>j. 1 \<le> j \<and> j \<le> depth f \<longrightarrow>
                  b_add ops
                    (b_smul ops (of_nat (depth f) - bweight (qbase f) - of_nat j) (terms f ! j))
                    (d (bgram (qbase f)) (terms f ! (j - 1))) = Inr (X ! j)) \<and>
               X ! (depth f + 1) = d (bgram (qbase f)) (terms f ! depth f) \<and>
               qinit ops (bweight (qbase f) + 2) (bgram (qbase f)) X = Inr g)"
    unfolding derivative_Inr_iff derivative_terms_eq wf_last[OF assms] by blast
  show "derivative ops f = Inr g \<longrightarrow> bweight (qbase g) = bweight (qbase f) + 2"
    unfolding derivative_Inr_iff using qinit_weight by blast
  show "bweight (d S x) = bweight x + 2" "bgram (d S x) = S"
    "length (bfe (d S x)) = length (bfe x)"
    by (simp_all add: d_def)
  show "\<forall>c < length (bfe x).
            \<exists>\<gamma> offset s.
              bfe x ! c = (\<gamma>, offset, s) \<and> bfe (d S x) ! c = (\<gamma>, offset, a offset s) \<and>
              (is_zero s \<longrightarrow> a offset s = big_oh (sprec s)) \<and>
              (\<not> is_zero s \<longrightarrow>
                 sprec (a offset s) = sprec s - \<lfloor>offset\<rfloor> \<and>
                 (\<forall>n < sprec s - \<lfloor>offset\<rfloor>.
                    sget (a offset s) n = Inr ((of_int n + offset) * coeff s n)))"
  proof (intro allI impI)
    fix c assume c: "c < length (bfe x)"
    from d_component[OF c, of S] obtain \<gamma> offset s
      where e: "bfe x ! c = (\<gamma>, offset, s)" "bfe (d S x) ! c = (\<gamma>, offset, a offset s)"
      by blast
    have z: "is_zero s \<longrightarrow> a offset s = big_oh (sprec s)" by (simp add: a_def)
    have p: "\<not> is_zero s \<longrightarrow> sprec (a offset s) = sprec s - \<lfloor>offset\<rfloor>"
      by (simp add: a_nonzero poly_bigoh_def)
    have n: "\<not> is_zero s \<longrightarrow>
        (\<forall>n < sprec s - \<lfloor>offset\<rfloor>. sget (a offset s) n = Inr ((of_int n + offset) * coeff s n))"
      using a_coefficients by blast
    show "\<exists>\<gamma> offset s.
              bfe x ! c = (\<gamma>, offset, s) \<and> bfe (d S x) ! c = (\<gamma>, offset, a offset s) \<and>
              (is_zero s \<longrightarrow> a offset s = big_oh (sprec s)) \<and>
              (\<not> is_zero s \<longrightarrow>
                 sprec (a offset s) = sprec s - \<lfloor>offset\<rfloor> \<and>
                 (\<forall>n < sprec s - \<lfloor>offset\<rfloor>.
                    sget (a offset s) n = Inr ((of_int n + offset) * coeff s n)))"
      using e z p n by blast
  qed
qed

lemma wf_q_depth1: "wf_qform std_lib q_depth1"
  by (simp add: wf_qform_def q_depth1_def std_bool_const)

lemma wf_q_theta: "wf_qform std_lib q_theta"
proof -
  have "b_bool std_lib theta0" by code_simp
  then show ?thesis by (simp add: wf_qform_def q_theta_def)
qed

text \<open>On the form \<open>q_theta\<close> of depth 1 and weight \<open>5/2\<close>: the three terms of the
  derivative, and the derivative of the component of offset \<open>1/4\<close> of its leading term,
  \<open>1 + q + O(q^2)\<close>, which is \<open>1/4 + 5/4 q + O(q^2)\<close>.\<close>

theorem derivative_recurrence_witness:
  "wf_qform std_lib q_theta \<and> depth q_theta = 1 \<and> bweight (qbase q_theta) = 5 / 2 \<and>
   terms q_theta = [theta0, theta1] \<and>
   derivative std_lib q_theta = Inr dq_theta \<and>
   bweight (qbase dq_theta) = bweight (qbase q_theta) + 2 \<and>
   bfe (qbase q_theta) \<noteq> [] \<and>
   (\<exists>X. length X = depth q_theta + 2 \<and>
      X ! 0 = b_smul std_lib (of_nat (depth q_theta) - bweight (qbase q_theta))
                (terms q_theta ! 0) \<and>
      (\<forall>j. 1 \<le> j \<and> j \<le> depth q_theta \<longrightarrow>
         b_add std_lib
           (b_smul std_lib (of_nat (depth q_theta) - bweight (qbase q_theta) - of_nat j)
              (terms q_theta ! j))
           (d (bgram (qbase q_theta)) (terms q_theta ! (j - 1))) = Inr (X ! j)) \<and>
      X ! (depth q_theta + 1) = d (bgram (qbase q_theta)) (terms q_theta ! depth q_theta) \<and>
      qinit std_lib (bweight (qbase q_theta) + 2) (bgram (qbase q_theta)) X = Inr dq_theta) \<and>
   terms dq_theta = dq_theta_terms \<and>
   dq_theta_terms ! 0 = b_smul std_lib (1 - 5 / 2) theta0 \<and>
   b_add std_lib (b_smul std_lib (1 - 5 / 2 - 1) theta1) (d [[- 2]] theta0)
     = Inr (dq_theta_terms ! 1) \<and>
   dq_theta_terms ! 2 = d [[- 2]] theta1 \<and>
   d [[- 2]] theta0 = d_theta0 \<and> d [[- 2]] theta1 = d_theta1 \<and>
   bweight (d [[- 2]] theta0) = bweight theta0 + 2 \<and>
   (1::nat) < length (bfe theta0) \<and>
   bfe theta0 ! 1 = ([1 / 2], 1 / 4, \<lparr>sstart = 0, scoeffs = [1, 1], sprec = 2\<rparr>) \<and>
   bfe (d [[- 2]] theta0) ! 1
     = ([1 / 2], 1 / 4, a (1 / 4) \<lparr>sstart = 0, scoeffs = [1, 1], sprec = 2\<rparr>) \<and>
   \<not> is_zero \<lparr>sstart = 0, scoeffs = [1, 1], sprec = 2\<rparr> \<and>
   sprec (a (1 / 4) \<lparr>sstart = 0, scoeffs = [1, 1], sprec = 2\<rparr>) = 2 \<and>
   sget (a (1 / 4) \<lparr>sstart = 0, scoeffs = [1, 1], sprec = 2\<rparr>) 1 = Inr (5 / 4)"
proof -
  let ?s = "\<lparr>sstart = 0, scoeffs = [1, 1], sprec = 2\<rparr> :: series"
  have e: "derivative std_lib q_theta = Inr dq_theta" by code_simp
  have f: "depth q_theta = 1" "bweight (qbase q_theta) = 5 / 2" "terms q_theta = [theta0, theta1]"
    "bgram (qbase q_theta) = [[- 2]]"
    by (simp_all add: depth_def terms_def q_theta_def theta1_def)
  have t: "terms dq_theta = dq_theta_terms" by (simp add: terms_def dq_theta_def)
  have x0: "dq_theta_terms ! 0 = b_smul std_lib (1 - 5 / 2) theta0" by code_simp
  have x1: "b_add std_lib (b_smul std_lib (1 - 5 / 2 - 1) theta1) (d [[- 2]] theta0)
     = Inr (dq_theta_terms ! 1)" by code_simp
  have x2: "dq_theta_terms ! 2 = d [[- 2]] theta1" by code_simp
  have d0: "d [[- 2]] theta0 = d_theta0" and d1: "d [[- 2]] theta1 = d_theta1" by code_simp+
  have c: "(1::nat) < length (bfe theta0)"
    "bfe theta0 ! 1 = ([1 / 2], 1 / 4, ?s)"
    by (simp_all add: theta0_def)
  have nz: "\<not> is_zero ?s" by (simp add: is_zero_def known_def)
  have fl: "\<lfloor>1 / 4 :: rat\<rfloor> = 0" by (rule floor_unique) simp_all
  have cf: "coeff ?s 1 = 1" by (simp add: coeff_def known_def)
  note th = derivative_recurrence[OF wf_q_theta, of dq_theta "[[- 2]]" theta0]
  have rec: "bfe (qbase q_theta) \<noteq> [] \<and>
   (\<exists>X. length X = depth q_theta + 2 \<and>
      X ! 0 = b_smul std_lib (of_nat (depth q_theta) - bweight (qbase q_theta))
                (terms q_theta ! 0) \<and>
      (\<forall>j. 1 \<le> j \<and> j \<le> depth q_theta \<longrightarrow>
         b_add std_lib
           (b_smul std_lib (of_nat (depth q_theta) - bweight (qbase q_theta) - of_nat j)
              (terms q_theta ! j))
           (d (bgram (qbase q_theta)) (terms q_theta ! (j - 1))) = Inr (X ! j)) \<and>
      X ! (depth q_theta + 1) = d (bgram (qbase q_theta)) (terms q_theta ! depth q_theta) \<and>
      qinit std_lib (bweight (qbase q_theta) + 2) (bgram (qbase q_theta)) X = Inr dq_theta)"
    using th e by blast
  have w: "bweight (qbase dq_theta) = bweight (qbase q_theta) + 2" using th e by blast
  have dw: "bweight (d [[- 2]] theta0) = bweight theta0 + 2" using th by blast
  from th have "\<forall>c < length (bfe theta0).
            \<exists>\<gamma> offset s.
              bfe theta0 ! c = (\<gamma>, offset, s) \<and>
              bfe (d [[- 2]] theta0) ! c = (\<gamma>, offset, a offset s) \<and>
              (is_zero s \<longrightarrow> a offset s = big_oh (sprec s)) \<and>
              (\<not> is_zero s \<longrightarrow>
                 sprec (a offset s) = sprec s - \<lfloor>offset\<rfloor> \<and>
                 (\<forall>n < sprec s - \<lfloor>offset\<rfloor>.
                    sget (a offset s) n = Inr ((of_int n + offset) * coeff s n)))"
    by blast
  with c(1) obtain \<gamma> offset s where cs: "bfe theta0 ! 1 = (\<gamma>, offset, s)"
    "bfe (d [[- 2]] theta0) ! 1 = (\<gamma>, offset, a offset s)"
    "\<not> is_zero s \<longrightarrow>
                 sprec (a offset s) = sprec s - \<lfloor>offset\<rfloor> \<and>
                 (\<forall>n < sprec s - \<lfloor>offset\<rfloor>.
                    sget (a offset s) n = Inr ((of_int n + offset) * coeff s n))"
    by blast
  have id: "\<gamma> = [1 / 2]" "offset = 1 / 4" "s = ?s" using cs(1) c(2) by simp_all
  have comp: "bfe (d [[- 2]] theta0) ! 1 = ([1 / 2], 1 / 4, a (1 / 4) ?s)"
    using cs(2) unfolding id .
  have pr: "sprec (a (1 / 4) ?s) = 2" using cs(3) nz fl unfolding id by simp
  have "sget (a (1 / 4) ?s) 1 = Inr ((of_int 1 + 1 / 4) * coeff ?s 1)"
    using cs(3) nz fl unfolding id by simp
  then have sg: "sget (a (1 / 4) ?s) 1 = Inr (5 / 4)" unfolding cf by simp
  show ?thesis
    using wf_q_theta f(1,2,3) e w rec t x0 x1 x2 d0 d1 dw c comp nz pr sg by blast
qed

lemma first_true_pos: "X \<noteq> [] \<Longrightarrow> \<not> b_bool ops (X ! 0) \<Longrightarrow> 1 \<le> first_true ops X"
  by (cases X) (simp_all add: first_true_def)

lemma qinit_depth: 
  "qinit ops k S X = Inr g \<Longrightarrow>
   depth g = (if first_true ops X < length X - 1 then length X - 1 - first_true ops X else 0)"
  by (auto simp: qinit_def Let_def depth_def split: if_splits)

text \<open>
  C10. When the depth \<open>r\<close> of \<open>f\<close> equals its weight, the leading term \<open>(r - k) * t[0]\<close> of
  the derivative is a multiple by zero; when that is a false (zero) form, the constructor
  trims it and the derivative has depth at most \<open>r\<close>. In particular the derivative of a
  form of weight 0 and depth 0 has depth 0.
\<close>

theorem derivative_depth_when_weight_is_depth:
  assumes wf: "wf_qform ops f"
    and rk: "of_nat (depth f) = bweight (qbase f)"
    and zero: "\<not> b_bool ops (b_smul ops 0 (terms f ! 0))"
    and der: "derivative ops f = Inr g"
  shows "depth g \<le> depth f"
proof -
  from der obtain X where X: "derivative_terms ops f = map Inr X"
    and g: "qinit ops (bweight (qbase f) + 2) (bgram (qbase f)) X = Inr g"
    unfolding derivative_Inr_iff by blast
  from X have len: "length X = depth f + 2"
    and X0: "X ! 0 = b_smul ops (of_nat (depth f) - bweight (qbase f)) (terms f ! 0)"
    unfolding derivative_terms_eq by blast+
  have "\<not> b_bool ops (X ! 0)" using X0 rk zero by simp
  moreover have "X \<noteq> []" using len by auto
  ultimately have "1 \<le> first_true ops X" by (rule first_true_pos[rotated])
  then show ?thesis using qinit_depth[OF g] len by (auto split: if_splits)
qed

theorem derivative_depth_when_weight_is_depth_witness:
  "wf_qform std_lib q_weight1 \<and>
   of_nat (depth q_weight1) = bweight (qbase q_weight1) \<and>
   \<not> b_bool std_lib (b_smul std_lib 0 (terms q_weight1 ! 0)) \<and>
   derivative std_lib q_weight1 = Inr dq_weight1 \<and>
   depth dq_weight1 \<le> depth q_weight1 \<and>
   wf_qform std_lib (plain_form (const_form 0 [] 5)) \<and>
   depth (plain_form (const_form 0 [] 5)) = 0 \<and>
   bweight (qbase (plain_form (const_form 0 [] 5))) = 0 \<and>
   derivative std_lib (plain_form (const_form 0 [] 5)) = Inr dq_plain0 \<and>
   depth dq_plain0 = 0"
proof -
  have w1: "wf_qform std_lib q_weight1"
    by (simp add: wf_qform_def q_weight1_def std_bool_const)
  have r1: "of_nat (depth q_weight1) = bweight (qbase q_weight1)"
    by (simp add: depth_def q_weight1_def const_form_def)
  have z1: "\<not> b_bool std_lib (b_smul std_lib 0 (terms q_weight1 ! 0))"
    by code_simp
  have d1: "derivative std_lib q_weight1 = Inr dq_weight1" by code_simp
  have w0: "wf_qform std_lib (plain_form (const_form 0 [] 5))"
    by (simp add: wf_qform_def plain_form_def)
  have r0: "of_nat (depth (plain_form (const_form 0 [] 5)))
              = bweight (qbase (plain_form (const_form 0 [] 5)))"
    by (simp add: depth_def plain_form_def const_form_def)
  have z0: "\<not> b_bool std_lib (b_smul std_lib 0 (terms (plain_form (const_form 0 [] 5)) ! 0))"
    by code_simp
  have d0: "derivative std_lib (plain_form (const_form 0 [] 5)) = Inr dq_plain0" by code_simp
  have p0: "depth (plain_form (const_form 0 [] 5)) = 0" by (simp add: depth_def plain_form_def)
  show ?thesis
    using w1 r1 z1 d1 w0 r0 z0 d0 p0
      derivative_depth_when_weight_is_depth[OF w1 r1 z1 d1]
      derivative_depth_when_weight_is_depth[OF w0 r0 z0 d0]
    by simp
qed

subsection \<open>The shift operator\<close>

text \<open>The loop leaves \<open>f[i] = (r - i)!\<close> for every \<open>i \<le> r\<close> and \<open>k = -1\<close>.\<close>

lemma shift_loop_inv:
  "m \<le> r \<Longrightarrow> length f = r + 1 \<Longrightarrow>
   (\<forall>i. r - m \<le> i \<and> i \<le> r \<longrightarrow> f ! i = fact (r - i)) \<Longrightarrow>
   shift_loop [Suc m..<Suc r] (f, int r - 1 - int m) = (f', k') \<Longrightarrow>
   k' = - 1 \<and> length f' = r + 1 \<and> (\<forall>i\<le>r. f' ! i = fact (r - i))"
proof (induction "r - m" arbitrary: m f)
  case 0
  then have "m = r" by simp
  with 0 show ?case by auto
next
  case (Suc n)
  then have m: "m < r" by simp
  let ?k = "int r - 1 - int m"
  let ?f1 = "f[nat ?k := int (Suc m) * f ! nat (?k + 1)]"
  have nk: "nat ?k = r - 1 - m" "nat (?k + 1) = r - m" using m by auto
  have upt: "[Suc m..<Suc r] = Suc m # [Suc (Suc m)..<Suc r]"
    using m by (simp add: upt_conv_Cons)
  have step: "shift_loop [Suc (Suc m)..<Suc r] (?f1, int r - 1 - int (Suc m)) = (f', k')"
    using Suc.prems(4) unfolding upt by (simp add: algebra_simps)
  have fm: "f ! (r - m) = fact m" using Suc.prems(3) m by simp
  have inv: "\<forall>i. r - Suc m \<le> i \<and> i \<le> r \<longrightarrow> ?f1 ! i = fact (r - i)"
  proof (intro allI impI)
    fix i assume i: "r - Suc m \<le> i \<and> i \<le> r"
    show "?f1 ! i = fact (r - i)"
    proof (cases "i = r - 1 - m")
      case True
      then have ri: "r - i = Suc m" using m by simp
      have "?f1 ! i = int (Suc m) * fact m"
        using True nk fm Suc.prems(2) m by simp
      then show ?thesis unfolding ri by simp
    next
      case False
      then have "r - m \<le> i" using i m by linarith
      then show ?thesis using False nk Suc.prems(3) i by simp
    qed
  qed
  show ?case
    by (rule Suc.hyps(1)[OF _ _ _ inv step]) (use Suc.hyps(2) m Suc.prems(2) in auto)
qed

lemma shift_loop_result:
  assumes "shift_loop [1..<r + 1] (replicate (r + 1) 1, int r - 1) = (fs, k)"
  shows "k = - 1 \<and> length fs = r + 1 \<and> (\<forall>i\<le>r. fs ! i = fact (r - i))"
proof (rule shift_loop_inv[of 0 r "replicate (r + 1) 1" fs k])
  show "0 \<le> r" by simp
  show "length (replicate (r + 1) (1::int)) = r + 1" by simp
  show "\<forall>i. r - 0 \<le> i \<and> i \<le> r \<longrightarrow> replicate (r + 1) (1::int) ! i = fact (r - i)"
    by (auto simp del: replicate_Suc simp: nth_replicate)
  show "shift_loop [Suc 0..<Suc r] (replicate (r + 1) 1, int r - 1 - int 0) = (fs, k)"
    using assms by (simp del: upt_Suc replicate_Suc)
qed

lemma shift_eq:
  assumes wf: "wf_qform ops f"
  shows "shift ops f =
     qinit ops (- 3) (bgram (qbase f))
       (map (\<lambda>i. b_smul ops (fact (depth f - i)) (terms f ! i)) [0..<depth f])"
proof -
  obtain fs k where lp:
    "shift_loop [1..<depth f + 1] (replicate (depth f + 1) 1, int (depth f) - 1) = (fs, k)"
    by (cases "shift_loop [1..<depth f + 1] (replicate (depth f + 1) 1, int (depth f) - 1)")
  note res = shift_loop_result[OF lp]
  have len: "length (terms f) = depth f + 1" using wf by (rule wf_length)
  have lists: "map (\<lambda>(i, y). b_smul ops (of_int (fs ! i)) y) (enumerate 0 (butlast (terms f)))
      = map (\<lambda>i. b_smul ops (fact (depth f - i)) (terms f ! i)) [0..<depth f]"
  proof (rule nth_equalityI)
    show "length (map (\<lambda>(i, y). b_smul ops (of_int (fs ! i)) y) (enumerate 0 (butlast (terms f))))
        = length (map (\<lambda>i. b_smul ops (fact (depth f - i)) (terms f ! i)) [0..<depth f])"
      using len by simp
    fix i
    assume "i < length (map (\<lambda>(i, y). b_smul ops (of_int (fs ! i)) y)
                         (enumerate 0 (butlast (terms f))))"
    then have i: "i < depth f" using len by simp
    then have "fs ! i = fact (depth f - i)" using res by simp
    then show "map (\<lambda>(i, y). b_smul ops (of_int (fs ! i)) y) (enumerate 0 (butlast (terms f))) ! i
        = map (\<lambda>i. b_smul ops (fact (depth f - i)) (terms f ! i)) [0..<depth f] ! i"
      using i len by (simp add: nth_enumerate_eq nth_butlast)
  qed
  have k: "of_int k - 2 = (- 3 :: rat)" using res by simp
  show ?thesis
    unfolding shift_def Let_def lp prod.case lists k ..
qed


lemma qinit_head_true:
  assumes "ts \<noteq> []" "b_bool ops (ts ! 0)"
  shows "qinit ops k S ts =
     Inr \<lparr>qbase = \<lparr>bweight = k, bgram = S, bfe = bfe (last ts)\<rparr>,
          qexp = (if 0 < length ts - 1 then Some (ts, length ts - 1) else None)\<rparr>"
proof -
  have "first_true ops ts = 0"
    using assms by (cases ts) (simp_all add: first_true_def)
  then show ?thesis using assms by (simp add: qinit_def Let_def)
qed

lemma wf_head: "wf_qform ops f \<Longrightarrow> 1 \<le> depth f \<Longrightarrow> b_bool ops (terms f ! 0)"
  by (auto simp: wf_qform_def depth_def terms_def split: option.splits)

lemma shift_depth:
  assumes wf: "wf_qform ops f" and r: "1 \<le> depth f"
    and t: "b_bool ops (b_smul ops (fact (depth f)) (terms f ! 0))"
  shows "\<exists>g. shift ops f = Inr g \<and> wf_qform ops g \<and> depth g = depth f - 1"
proof -
  let ?L = "map (\<lambda>i. b_smul ops (fact (depth f - i)) (terms f ! i)) [0..<depth f]"
  have ne: "?L \<noteq> []" using r by auto
  have hd: "?L ! 0 = b_smul ops (fact (depth f)) (terms f ! 0)" using r by (simp add: nth_map)
  have t': "b_bool ops (?L ! 0)" unfolding hd by (rule t)
  note eq = shift_eq[OF wf, unfolded qinit_head_true[OF ne t']]
  show ?thesis
    using eq qinit_wf[of ops "- 3" "bgram (qbase f)" ?L] qinit_head_true[OF ne t']
    by (auto simp: depth_def)
qed

text \<open>
  C2. For a form \<open>f\<close> of depth \<open>r\<close> with terms \<open>t[0..r]\<close>, \<^verbatim>\<open>shift\<close> hands the
  constructor the Gram matrix of \<open>f\<close> and the list of the first \<open>r\<close> terms, \<open>t[i]\<close> scaled by
  \<open>(r - i)!\<close> (the coefficient the loop \<open>f[k] = j * f[k + 1]\<close> leaves at \<open>i\<close>); the last term
  is dropped. When \<open>r \<ge> 1\<close> and the scaled leading term is true, the result has depth
  \<open>r - 1\<close> and these terms; when \<open>r = 0\<close> the list is empty and the constructor raises. The
  weight handed to the constructor is \<open>k - 2\<close> for the loop variable \<open>k\<close>, which the loop
  has counted down to \<open>-1\<close>: whenever \<^verbatim>\<open>shift\<close> returns, the result has weight \<open>-3\<close>,
  which is never \<open>r - 3\<close>.
\<close>

theorem shift_terms:
  assumes wf: "wf_qform ops f"
  shows "shift ops f =
            qinit ops (- 3) (bgram (qbase f))
              (map (\<lambda>i. b_smul ops (fact (depth f - i)) (terms f ! i)) [0..<depth f]) \<and>
         (shift ops f = Inr g \<longrightarrow>
            1 \<le> depth f \<and> bgram (qbase g) = bgram (qbase f) \<and>
            bweight (qbase g) = - 3 \<and> bweight (qbase g) \<noteq> of_nat (depth f) - 3) \<and>
         (1 \<le> depth f \<and> b_bool ops (b_smul ops (fact (depth f)) (terms f ! 0)) \<longrightarrow>
            (\<exists>h. shift ops f = Inr h \<and> depth h = depth f - 1 \<and>
                 (2 \<le> depth f \<longrightarrow>
                    terms h =
                      map (\<lambda>i. b_smul ops (fact (depth f - i)) (terms f ! i)) [0..<depth f]))) \<and>
         (depth f = 0 \<longrightarrow> shift ops f = Inl IndexError)"
proof (intro conjI impI)
  let ?L = "map (\<lambda>i. b_smul ops (fact (depth f - i)) (terms f ! i)) [0..<depth f]"
  show eq: "shift ops f = qinit ops (- 3) (bgram (qbase f)) ?L"
    by (rule shift_eq[OF wf])
  show zero: "shift ops f = Inl IndexError" if "depth f = 0"
    using eq that by (simp add: qinit_def)
  show "\<exists>h. shift ops f = Inr h \<and> depth h = depth f - 1 \<and> (2 \<le> depth f \<longrightarrow> terms h = ?L)"
    if t: "1 \<le> depth f \<and> b_bool ops (b_smul ops (fact (depth f)) (terms f ! 0))"
  proof -
    have ne: "?L \<noteq> []" using t by auto
    have hd: "?L ! 0 = b_smul ops (fact (depth f)) (terms f ! 0)" using t by (simp add: nth_map)
    have t': "b_bool ops (?L ! 0)" unfolding hd using t by simp
    show ?thesis
      unfolding eq qinit_head_true[OF ne t'] by (auto simp: depth_def terms_def)
  qed
  assume g: "shift ops f = Inr g"
  show r: "1 \<le> depth f"
  proof (rule ccontr)
    assume "\<not> 1 \<le> depth f"
    then have "shift ops f = Inl IndexError" using zero by simp
    then show False using g by simp
  qed
  have q: "qinit ops (- 3) (bgram (qbase f)) ?L = Inr g" using g eq by simp
  show "bgram (qbase g) = bgram (qbase f)" and w: "bweight (qbase g) = - 3"
    using qinit_weight[OF q] by simp_all
  have "(of_nat (depth f) :: rat) \<ge> 1" using r by simp
  then show "bweight (qbase g) \<noteq> of_nat (depth f) - 3" unfolding w by linarith
qed

lemma wf_q_depth3: "wf_qform std_lib q_depth3"
  by (simp add: wf_qform_def q_depth3_def std_bool_const)

theorem shift_terms_witness:
  "wf_qform std_lib q_depth3 \<and> 1 \<le> depth q_depth3 \<and>
   b_bool std_lib (b_smul std_lib (fact (depth q_depth3)) (terms q_depth3 ! 0)) \<and>
   shift std_lib q_depth3 = Inr shift_q_depth3 \<and>
   depth shift_q_depth3 = depth q_depth3 - 1 \<and>
   terms shift_q_depth3 = [const_form 0 [] 6, const_form 2 [] 4, const_form 4 [] 3] \<and>
   terms shift_q_depth3 =
     map (\<lambda>i. b_smul std_lib (fact (depth q_depth3 - i)) (terms q_depth3 ! i))
       [0..<depth q_depth3] \<and>
   bweight (qbase shift_q_depth3) = - 3 \<and>
   bweight (qbase shift_q_depth3) \<noteq> of_nat (depth q_depth3) - 3 \<and>
   wf_qform std_lib (plain_form (const_form 0 [] 5)) \<and>
   depth (plain_form (const_form 0 [] 5)) = 0 \<and>
   shift std_lib (plain_form (const_form 0 [] 5)) = Inl IndexError"
proof -
  have d: "depth q_depth3 = 3" by (simp add: depth_def q_depth3_def)
  have t: "b_bool std_lib (b_smul std_lib (fact (depth q_depth3)) (terms q_depth3 ! 0))"
    unfolding d by code_simp
  have e: "shift std_lib q_depth3 = Inr shift_q_depth3" by code_simp
  have w0: "wf_qform std_lib (plain_form (const_form 0 [] 5))"
    by (simp add: wf_qform_def plain_form_def)
  have d0: "depth (plain_form (const_form 0 [] 5)) = 0" by (simp add: depth_def plain_form_def)
  have ds: "depth shift_q_depth3 = 2"
    "terms shift_q_depth3 = [const_form 0 [] 6, const_form 2 [] 4, const_form 4 [] 3]"
    by (simp_all add: depth_def terms_def shift_q_depth3_def)
  note t3 = shift_terms[OF wf_q_depth3, of shift_q_depth3]
  note t0 = shift_terms[OF w0, of shift_q_depth3]
  have r1: "1 \<le> depth q_depth3" and r2: "2 \<le> depth q_depth3" using d by simp_all
  have "\<exists>h. shift std_lib q_depth3 = Inr h \<and> depth h = depth q_depth3 - 1 \<and>
      (2 \<le> depth q_depth3 \<longrightarrow>
         terms h = map (\<lambda>i. b_smul std_lib (fact (depth q_depth3 - i)) (terms q_depth3 ! i))
                     [0..<depth q_depth3])"
    using t3 t r1 by blast
  then obtain h where h: "shift std_lib q_depth3 = Inr h"
    "2 \<le> depth q_depth3 \<longrightarrow>
       terms h = map (\<lambda>i. b_smul std_lib (fact (depth q_depth3 - i)) (terms q_depth3 ! i))
                   [0..<depth q_depth3]"
    by blast
  have "h = shift_q_depth3" using h(1) e by simp
  then have tm: "terms shift_q_depth3 =
     map (\<lambda>i. b_smul std_lib (fact (depth q_depth3 - i)) (terms q_depth3 ! i))
       [0..<depth q_depth3]"
    using h(2) r2 by blast
  have wt: "bweight (qbase shift_q_depth3) = - 3 \<and>
      bweight (qbase shift_q_depth3) \<noteq> of_nat (depth q_depth3) - 3"
    using t3 e by blast
  have z: "shift std_lib (plain_form (const_form 0 [] 5)) = Inl IndexError"
    using t0 d0 by blast
  show ?thesis
    using wf_q_depth3 d t e w0 d0 ds tm wt z by simp
qed

text \<open>The claim as written fails on the weight: at depth 1 the weight handed to the
  constructor is \<open>-3\<close>, the final value \<open>-1\<close> of the loop variable minus 2, not \<open>r - 3\<close>.\<close>

theorem shift_weight_counterexample:
  "depth q_depth1 = 1 \<and>
   shift std_lib q_depth1 = Inr (plain_form (const_form (- 3) [] 1)) \<and>
   bweight (qbase (plain_form (const_form (- 3) [] 1))) = - 3 \<and>
   bweight (qbase (plain_form (const_form (- 3) [] 1))) \<noteq> of_nat (depth q_depth1) - 3"
proof -
  have e: "shift std_lib q_depth1 = Inr (plain_form (const_form (- 3) [] 1))" by code_simp
  have d: "depth q_depth1 = 1" by (simp add: depth_def q_depth1_def)
  show ?thesis using e d by (simp add: plain_form_def const_form_def)
qed

subsection \<open>The completion\<close>

lemma wf_depth0_terms: "wf_qform ops f \<Longrightarrow> depth f = 0 \<Longrightarrow> terms f = [qbase f]"
  by (auto simp: wf_qform_def depth_def terms_def split: option.splits)

lemma qinit_single: "qinit ops k S [x] = Inr \<lparr>qbase = \<lparr>bweight = k, bgram = S, bfe = bfe x\<rparr>, qexp = None\<rparr>"
  by (simp add: qinit_def Let_def)

lemma qdiv_depth:
  assumes wf: "wf_qform ops s" and c: "c \<noteq> 0" and k: "scalars_keep_truth ops"
  shows "\<exists>g. qdiv ops s c = Inr g \<and> wf_qform ops g \<and> depth g = depth s"
proof (cases "depth s = 0")
  case True
  have "qdiv ops s c = Inr \<lparr>qbase = \<lparr>bweight = bweight (qbase s), bgram = bgram (qbase s),
      bfe = bfe (b_div ops (qbase s) c)\<rparr>, qexp = None\<rparr>"
    unfolding qdiv_def wf_depth0_terms[OF wf True] by (simp add: qinit_single)
  then show ?thesis using True by (simp add: wf_qform_def depth_def)
next
  case False
  then have r: "1 \<le> depth s" by simp
  let ?L = "map (\<lambda>x. b_div ops x c) (terms s)"
  have len: "length (terms s) = depth s + 1" using wf by (rule wf_length)
  have ne: "?L \<noteq> []" using len by auto
  have "b_bool ops (b_div ops (terms s ! 0) c)"
    using k c wf_head[OF wf r] unfolding scalars_keep_truth_def by blast
  then have t: "b_bool ops (?L ! 0)" using len by (simp add: nth_map)
  note eq = qinit_head_true[OF ne t, of "bweight (qbase s)" "bgram (qbase s)"]
  show ?thesis
    unfolding qdiv_def
    using eq qinit_wf[of ops "bweight (qbase s)" "bgram (qbase s)" ?L] len r
    by (auto simp: depth_def)
qed

lemma shift_depth_kept:
  assumes wf: "wf_qform ops f" and r: "1 \<le> depth f" and k: "scalars_keep_truth ops"
  shows "\<exists>g. shift ops f = Inr g \<and> wf_qform ops g \<and> depth g = depth f - 1"
proof (rule shift_depth[OF wf r])
  have "(fact (depth f) :: rat) \<noteq> 0" by simp
  then show "b_bool ops (b_smul ops (fact (depth f)) (terms f ! 0))"
    using k wf_head[OF wf r] unfolding scalars_keep_truth_def by blast
qed

lemma completion_loop_step:
  "shift ops (last X) = Inr s \<Longrightarrow> qdiv ops s (of_nat (j * (i + 1))) = Inr y \<Longrightarrow>
   completion_loop ops (i # is) X j = completion_loop ops is (X @ [y]) (j * (i + 1))"
  by (simp add: Let_def)

lemma completion_loop_returns:
  "scalars_keep_truth ops \<Longrightarrow> X \<noteq> [] \<Longrightarrow> wf_qform ops (last X) \<Longrightarrow> depth (last X) = m \<Longrightarrow>
   \<exists>Y. completion_loop ops [n..<n + m] X (fact n) = Inr Y"
proof (induction m arbitrary: n X)
  case 0
  then show ?case by simp
next
  case (Suc m)
  have upt: "[n..<n + Suc m] = n # [Suc n..<Suc n + m]" by (simp add: upt_conv_Cons)
  from shift_depth_kept[OF Suc.prems(3) _ Suc.prems(1)] Suc.prems(4)
  obtain s where s: "shift ops (last X) = Inr s" "wf_qform ops s" "depth s = m" by auto
  have "fact n * (n + 1) \<noteq> (0::nat)" by simp
  then have nz: "(of_nat (fact n * (n + 1)) :: rat) \<noteq> 0"
    unfolding of_nat_eq_0_iff .
  from qdiv_depth[OF s(2) nz Suc.prems(1)] s(3)
  obtain y where y: "qdiv ops s (of_nat (fact n * (n + 1))) = Inr y" "wf_qform ops y" "depth y = m"
    by auto
  have fs: "fact n * (n + 1) = (fact (Suc n) :: nat)" by (simp add: algebra_simps)
  have "\<exists>Y. completion_loop ops [Suc n..<Suc n + m] (X @ [y]) (fact (Suc n)) = Inr Y"
    by (rule Suc.IH[OF Suc.prems(1)]) (use y in auto)
  then obtain Y where Y: "completion_loop ops [Suc n..<Suc n + m] (X @ [y]) (fact (Suc n)) = Inr Y"
    by blast
  have "completion_loop ops [n..<n + Suc m] X (fact n)
      = completion_loop ops [Suc n..<Suc n + m] (X @ [y]) (fact n * (n + 1))"
    unfolding upt by (rule completion_loop_step[OF s(1) y(1)])
  also have "\<dots> = Inr Y" unfolding fs by (rule Y)
  finally show ?case by blast
qed


lemma completion_loop_Cons_Inr:
  assumes "completion_loop ops (i # is) X j = Inr Y"
  obtains s y where "shift ops (last X) = Inr s" "qdiv ops s (of_nat (j * (i + 1))) = Inr y"
    "completion_loop ops is (X @ [y]) (j * (i + 1)) = Inr Y"
  using assms by (auto simp: Let_def split: sum.splits)

lemma completion_loop_sound:
  "X \<noteq> [] \<Longrightarrow> completion_loop ops [n..<n + m] X (fact n) = Inr Y \<Longrightarrow>
   length Y = length X + m \<and> take (length X) Y = X \<and>
   (\<forall>i<m. \<exists>s. shift ops (Y ! (length X + i - 1)) = Inr s \<and>
               qdiv ops s (of_nat (fact (n + i + 1))) = Inr (Y ! (length X + i)))"
proof (induction m arbitrary: n X)
  case 0
  then show ?case by simp
next
  case (Suc m)
  have upt: "[n..<n + Suc m] = n # [Suc n..<Suc n + m]" by (simp add: upt_conv_Cons)
  have fs: "fact n * (n + 1) = (fact (Suc n) :: nat)" by (simp add: algebra_simps)
  from Suc.prems(2)[unfolded upt]
  obtain s y where s: "shift ops (last X) = Inr s"
    and y: "qdiv ops s (of_nat (fact n * (n + 1))) = Inr y"
    and rest: "completion_loop ops [Suc n..<Suc n + m] (X @ [y]) (fact n * (n + 1)) = Inr Y"
    by (rule completion_loop_Cons_Inr)
  have ih: "length Y = length (X @ [y]) + m \<and> take (length (X @ [y])) Y = X @ [y] \<and>
   (\<forall>i<m. \<exists>s. shift ops (Y ! (length (X @ [y]) + i - 1)) = Inr s \<and>
               qdiv ops s (of_nat (fact (Suc n + i + 1))) = Inr (Y ! (length (X @ [y]) + i)))"
    by (rule Suc.IH) (use rest[unfolded fs] in auto)
  then have len: "length Y = length X + Suc m" by simp
  from ih have tk: "take (Suc (length X)) Y = X @ [y]" by simp
  have tX: "take (length X) Y = X"
  proof -
    have "take (length X) Y = take (length X) (take (Suc (length X)) Y)" by simp
    also have "\<dots> = X" unfolding tk by simp
    finally show ?thesis .
  qed
  have Yl: "Y ! length X = y"
  proof -
    have "Y ! length X = take (Suc (length X)) Y ! length X" by simp
    also have "\<dots> = y" unfolding tk by simp
    finally show ?thesis .
  qed
  have Yp: "Y ! (length X - 1) = last X"
  proof -
    have lt: "length X - 1 < length X" using Suc.prems(1) by (cases X) auto
    have "Y ! (length X - 1) = take (length X) Y ! (length X - 1)" using lt by simp
    also have "\<dots> = last X" unfolding tX using Suc.prems(1) by (simp add: last_conv_nth)
    finally show ?thesis .
  qed
  have all: "\<exists>s. shift ops (Y ! (length X + i - 1)) = Inr s \<and>
               qdiv ops s (of_nat (fact (n + i + 1))) = Inr (Y ! (length X + i))"
    if "i < Suc m" for i
  proof (cases i)
    case 0
    have y': "qdiv ops s (of_nat (fact (Suc n))) = Inr y" using y unfolding fs .
    show ?thesis using 0 s y' Yl Yp by simp
  next
    case (Suc i')
    then have "i' < m" using that by simp
    with ih obtain s' where "shift ops (Y ! (length (X @ [y]) + i' - 1)) = Inr s'"
      "qdiv ops s' (of_nat (fact (Suc n + i' + 1))) = Inr (Y ! (length (X @ [y]) + i'))"
      by blast
    then show ?thesis using Suc by simp
  qed
  show ?case using len tX all by blast
qed

lemma completion_list_sound:
  assumes "completion_list ops f = Inr Y"
  shows "length Y = depth f + 1 \<and> Y ! 0 = f \<and>
   (\<forall>i. 1 \<le> i \<and> i \<le> depth f \<longrightarrow>
      (\<exists>s. shift ops (Y ! (i - 1)) = Inr s \<and> qdiv ops s (of_nat (fact i)) = Inr (Y ! i)))"
proof -
  have "completion_loop ops [0..<0 + depth f] [f] (fact 0) = Inr Y"
    using assms by (simp add: completion_list_def)
  from completion_loop_sound[OF _ this]
  have len: "length Y = 1 + depth f" and tk: "take 1 Y = [f]"
    and steps: "\<And>i. i < depth f \<Longrightarrow> \<exists>s. shift ops (Y ! (1 + i - 1)) = Inr s \<and>
               qdiv ops s (of_nat (fact (0 + i + 1))) = Inr (Y ! (1 + i))"
    by auto
  have Y0: "Y ! 0 = f"
  proof -
    have "Y ! 0 = take 1 Y ! 0" by simp
    then show ?thesis unfolding tk by simp
  qed
  have "\<exists>s. shift ops (Y ! (i - 1)) = Inr s \<and> qdiv ops s (of_nat (fact i)) = Inr (Y ! i)"
    if i: "1 \<le> i \<and> i \<le> depth f" for i
  proof -
    obtain i' where i': "i = Suc i'" "i' < depth f" using i by (cases i) auto
    show ?thesis using steps[OF i'(2)] i'(1) by simp
  qed
  then show ?thesis using len Y0 by auto
qed

text \<open>
  C3, as amended. For a form \<open>f\<close> of depth \<open>r\<close> (over a base class whose non-zero scalar
  multiples and quotients of true forms are true), \<^verbatim>\<open>completion\<close> returns a completion
  of depth \<open>r\<close> that wraps a list of \<open>r + 1\<close> entries: entry 0 is \<open>f\<close> itself and, for
  \<open>1 \<le> i \<le> r\<close>, entry \<open>i\<close> is the shift of entry \<open>i - 1\<close> divided by \<open>i!\<close> (the running
  product \<open>j\<close> of the loop), not by \<open>i\<close>.
\<close>

theorem completion_terms:
  assumes wf: "wf_qform ops f" and k: "scalars_keep_truth ops"
  shows "\<exists>Y. completion ops f =
              Inr \<lparr>ah_weight = bweight (qbase f), ah_gram = bgram (qbase f),
                   ah_list = Y, ah_depth = depth f\<rparr> \<and>
            length Y = depth f + 1 \<and> Y ! 0 = f \<and>
            (\<forall>i. 1 \<le> i \<and> i \<le> depth f \<longrightarrow>
               (\<exists>s. shift ops (Y ! (i - 1)) = Inr s \<and>
                    qdiv ops s (of_nat (fact i)) = Inr (Y ! i)))"
proof -
  have "\<exists>Y. completion_loop ops [0..<0 + depth f] [f] (fact 0) = Inr Y"
    by (rule completion_loop_returns[OF k]) (use wf in auto)
  then obtain Y where Y: "completion_list ops f = Inr Y" by (auto simp: completion_list_def)
  note snd = completion_list_sound[OF Y]
  have ne: "Y \<noteq> []" using snd by auto
  have "completion ops f =
          Inr \<lparr>ah_weight = bweight (qbase f), ah_gram = bgram (qbase f),
               ah_list = Y, ah_depth = depth f\<rparr>"
    using Y ne snd by (simp add: completion_def ah_init_def)
  then show ?thesis using snd by blast
qed


lemma is_zero_scale: "c \<noteq> 0 \<Longrightarrow> is_zero (s_scale c f) = is_zero f"
  by (simp add: is_zero_def known_def s_scale_def take_map list_all_iff)

lemma std_bool_scale: "c \<noteq> 0 \<Longrightarrow> std_bool (map_series (s_scale c) x) = std_bool x"
  by (force simp: std_bool_def map_series_def list_ex_iff is_zero_scale split_beta)

lemma std_lib_keeps_truth: "scalars_keep_truth std_lib"
  by (simp add: scalars_keep_truth_def std_lib_def std_bool_scale)

theorem completion_terms_witness:
  "wf_qform std_lib q_depth3 \<and> scalars_keep_truth std_lib \<and>
   completion std_lib q_depth3 =
     Inr \<lparr>ah_weight = 6, ah_gram = [],
          ah_list = [q_depth3, shift_q_depth3, comp2_q_depth3,
                     plain_form (const_form (- 3) [] 1)],
          ah_depth = 3\<rparr> \<and>
   (\<exists>Y. completion std_lib q_depth3 =
          Inr \<lparr>ah_weight = bweight (qbase q_depth3), ah_gram = bgram (qbase q_depth3),
               ah_list = Y, ah_depth = depth q_depth3\<rparr> \<and>
        length Y = depth q_depth3 + 1 \<and> Y ! 0 = q_depth3 \<and>
        (\<forall>i. 1 \<le> i \<and> i \<le> depth q_depth3 \<longrightarrow>
           (\<exists>s. shift std_lib (Y ! (i - 1)) = Inr s \<and>
                qdiv std_lib s (of_nat (fact i)) = Inr (Y ! i))))"
proof -
  have e: "completion std_lib q_depth3 =
     Inr \<lparr>ah_weight = 6, ah_gram = [],
          ah_list = [q_depth3, shift_q_depth3, comp2_q_depth3,
                     plain_form (const_form (- 3) [] 1)],
          ah_depth = 3\<rparr>"
    by code_simp
  show ?thesis
    using wf_q_depth3 std_lib_keeps_truth e completion_terms[OF wf_q_depth3 std_lib_keeps_truth]
    by blast
qed

text \<open>The claim as written fails at depth 3: entry 3 is the shift of entry 2 divided by
  6; dividing by 3 gives another form, and so does the third shift of \<open>f\<close> divided by
  \<open>3!\<close>.\<close>

theorem completion_terms_counterexample:
  "completion_list std_lib q_depth3 =
     Inr [q_depth3, shift_q_depth3, comp2_q_depth3, plain_form (const_form (- 3) [] 1)] \<and>
   shift std_lib comp2_q_depth3 = Inr (plain_form (const_form (- 3) [] 6)) \<and>
   qdiv std_lib (plain_form (const_form (- 3) [] 6)) 3 = Inr (plain_form (const_form (- 3) [] 2)) \<and>
   plain_form (const_form (- 3) [] 2) \<noteq> plain_form (const_form (- 3) [] 1) \<and>
   shift std_lib q_depth3 = Inr shift_q_depth3 \<and>
   shift std_lib shift_q_depth3 = Inr shift2_q_depth3 \<and>
   shift std_lib shift2_q_depth3 = Inr (plain_form (const_form (- 3) [] 12)) \<and>
   qdiv std_lib (plain_form (const_form (- 3) [] 12)) (fact 3)
     = Inr (plain_form (const_form (- 3) [] 2))"
proof -
  have 1: "completion_list std_lib q_depth3 =
     Inr [q_depth3, shift_q_depth3, comp2_q_depth3, plain_form (const_form (- 3) [] 1)]"
    by code_simp
  have 2: "shift std_lib comp2_q_depth3 = Inr (plain_form (const_form (- 3) [] 6))"
    by code_simp
  have 3: "qdiv std_lib (plain_form (const_form (- 3) [] 6)) 3
      = Inr (plain_form (const_form (- 3) [] 2))"
    by code_simp
  have 4: "plain_form (const_form (- 3) [] 2) \<noteq> plain_form (const_form (- 3) [] 1)"
    by (simp add: plain_form_def const_form_def)
  have 5: "shift std_lib q_depth3 = Inr shift_q_depth3" by code_simp
  have 6: "shift std_lib shift_q_depth3 = Inr shift2_q_depth3" by code_simp
  have 7: "shift std_lib shift2_q_depth3 = Inr (plain_form (const_form (- 3) [] 12))"
    by code_simp
  have 8: "qdiv std_lib (plain_form (const_form (- 3) [] 12)) (fact 3)
     = Inr (plain_form (const_form (- 3) [] 2))"
    by code_simp
  show ?thesis using 1 2 3 4 5 6 7 8 by blast
qed

subsection \<open>The tensor product\<close>

text \<open>The double loop returns exactly when every accumulator can take its products in
  turn, and then holds the accumulated sums.\<close>

lemma products_at_Nil: "products_at ops t1 t2 [] m = []"
  by (simp add: products_at_def)

lemma products_at_Cons:
  "products_at ops t1 t2 ((i, j) # ps) m =
     (if i + j = m then b_mul ops (t1 ! i) (t2 ! j) # products_at ops t1 t2 ps m
      else products_at ops t1 t2 ps m)"
  by (simp add: products_at_def)

lemma mul_loop_iff:
  "(\<forall>(i, j) \<in> set ps. i + j < length X) \<Longrightarrow>
   mul_loop ops t1 t2 ps X = Inr Y \<longleftrightarrow>
     length Y = length X \<and>
     (\<forall>m < length X. add_all ops (X ! m) (products_at ops t1 t2 ps m) = Inr (Y ! m))"
proof (induction ps arbitrary: X)
  case Nil
  show ?case by (auto simp: products_at_Nil list_eq_iff_nth_eq)
next
  case (Cons q ps)
  obtain i j where q: "q = (i, j)" by (cases q)
  have n: "i + j < length X" using Cons.prems q by simp
  have rest: "\<forall>(i, j) \<in> set ps. i + j < length X" using Cons.prems by simp
  show ?case
  proof (cases "b_add ops (X ! (i + j)) (b_mul ops (t1 ! i) (t2 ! j))")
    case (Inl e)
    have "add_all ops (X ! (i + j)) (products_at ops t1 t2 (q # ps) (i + j)) = Inl e"
      using Inl by (simp add: q products_at_Cons)
    then have "\<not> (\<forall>m < length X.
        add_all ops (X ! m) (products_at ops t1 t2 (q # ps) m) = Inr (Y ! m))"
      using n by (metis sum.distinct(1))
    then show ?thesis using Inl by (simp add: q)
  next
    case (Inr y)
    let ?X = "X[i + j := y]"
    have rest': "\<forall>(i, j) \<in> set ps. i + j < length ?X" using rest by simp
    have step: "add_all ops (X ! m) (products_at ops t1 t2 (q # ps) m)
        = add_all ops (?X ! m) (products_at ops t1 t2 ps m)" if "m < length X" for m
      using that Inr n by (cases "m = i + j") (simp_all add: q products_at_Cons)
    have "mul_loop ops t1 t2 (q # ps) X = Inr Y \<longleftrightarrow> mul_loop ops t1 t2 ps ?X = Inr Y"
      using Inr by (simp add: q)
    also have "\<dots> \<longleftrightarrow> length Y = length ?X \<and>
        (\<forall>m < length ?X. add_all ops (?X ! m) (products_at ops t1 t2 ps m) = Inr (Y ! m))"
      by (rule Cons.IH[OF rest'])
    also have "\<dots> \<longleftrightarrow> length Y = length X \<and>
        (\<forall>m < length X. add_all ops (X ! m) (products_at ops t1 t2 (q # ps) m) = Inr (Y ! m))"
      using step by simp
    finally show ?thesis .
  qed
qed

lemma set_index_pairs: "set (index_pairs r s) = {(i, j). i \<le> r \<and> j \<le> s}"
  by (auto simp del: upt_Suc simp: index_pairs_def less_Suc_eq_le)

lemma distinct_index_pairs: "distinct (index_pairs r s)"
  unfolding index_pairs_def
  by (rule distinct_concat) (auto simp del: upt_Suc simp: distinct_map inj_on_def)

lemma distinct_singleton: "distinct ys \<Longrightarrow> set ys = {x} \<Longrightarrow> ys = [x]"
proof -
  assume d: "distinct ys" and s: "set ys = {x}"
  have "card (set ys) = 1" using s by simp
  then have "length ys = 1" using d by (simp add: distinct_card)
  then show ?thesis using s by (cases ys) auto
qed

lemma products_at_0:
  "products_at ops t1 t2 (index_pairs r s) 0 = [b_mul ops (t1 ! 0) (t2 ! 0)]"
proof -
  have "filter (\<lambda>(i, j). i + j = 0) (index_pairs r s) = [(0, 0)]"
    by (rule distinct_singleton) (auto simp: distinct_index_pairs set_index_pairs)
  then show ?thesis by (simp add: products_at_def)
qed


lemma mul_terms_iff:
  "mul_terms ops f g = Inr Y \<longleftrightarrow>
     length Y = depth f + depth g + 1 \<and>
     (\<forall>m \<le> depth f + depth g.
        add_all ops
          (w_zero ops (w_sum ops (bgram (qbase f)) (bgram (qbase g)))
             (of_nat (m + m) +
              (bweight (qbase f) + bweight (qbase g)
               - of_nat (depth f + depth g) - of_nat (depth f + depth g)))
             (b_precision ops (qbase f)))
          (products_at ops (terms f) (terms g) (index_pairs (depth f) (depth g)) m)
        = Inr (Y ! m))"
proof -
  let ?X = "map (\<lambda>i. w_zero ops (w_sum ops (bgram (qbase f)) (bgram (qbase g)))
             (of_nat (i + i) +
              (bweight (qbase f) + bweight (qbase g)
               - of_nat (depth f + depth g) - of_nat (depth f + depth g)))
             (b_precision ops (qbase f))) [0..<depth f + depth g + 1]"
  have pre: "\<forall>(i, j) \<in> set (index_pairs (depth f) (depth g)). i + j < length ?X"
    by (auto simp: set_index_pairs)
  have eq: "mul_terms ops f g
      = mul_loop ops (terms f) (terms g) (index_pairs (depth f) (depth g)) ?X"
    unfolding mul_terms_def Let_def ..
  have nth: "?X ! m = w_zero ops (w_sum ops (bgram (qbase f)) (bgram (qbase g)))
             (of_nat (m + m) +
              (bweight (qbase f) + bweight (qbase g)
               - of_nat (depth f + depth g) - of_nat (depth f + depth g)))
             (b_precision ops (qbase f))" if "m \<le> depth f + depth g" for m
  proof -
    have "m < depth f + depth g + 1 - 0" using that by simp
    from nth_map_upt[OF this] show ?thesis by (simp only: add_0)
  qed
  show ?thesis
    unfolding eq mul_loop_iff[OF pre]
    using nth by (auto simp: less_Suc_eq_le)
qed

text \<open>What the constructor keeps of a list: the entries from the first true one on.\<close>

lemma first_true_zero_iff: "X \<noteq> [] \<Longrightarrow> first_true ops X = 0 \<longleftrightarrow> b_bool ops (X ! 0)"
  by (cases X) (simp_all add: first_true_def)

lemma first_true_false_before: "i < first_true ops X \<Longrightarrow> \<not> b_bool ops (X ! i)"
proof -
  assume i: "i < first_true ops X"
  let ?P = "\<lambda>x. \<not> b_bool ops x"
  have l: "i < length (takeWhile ?P X)" using i by (simp add: first_true_def)
  then have "takeWhile ?P X ! i \<in> set (takeWhile ?P X)" by (rule nth_mem)
  then have "?P (takeWhile ?P X ! i)" by (rule set_takeWhileD[THEN conjunct2])
  then show ?thesis using takeWhile_nth[OF l] by simp
qed

lemma qinit_terms:
  assumes "qinit ops k S X = Inr g"
  shows "X \<noteq> []" "bfe (qbase g) = bfe (last X)"
    "terms g = (if first_true ops X < length X - 1 then drop (first_true ops X) X else [qbase g])"
  using assms by (auto simp: qinit_def Let_def terms_def split: if_splits)

text \<open>
  C4, as amended. For two forms \<open>f\<close>, \<open>g\<close> in the expanded representation (depths
  \<open>r, s \<ge> 1\<close>): the loops visit each pair \<open>(i, j)\<close> with \<open>i \<le> r\<close>, \<open>j \<le> s\<close> once and
  return exactly the lists \<open>Y\<close> of \<open>r + s + 1\<close> entries in which \<open>Y[m]\<close> is the zero form of
  the combined lattice with the products \<open>t1[i] * t2[j]\<close>, \<open>i + j = m\<close>, added one after the
  other; \<open>f * g\<close> returns exactly when the loops do, and is what the constructor makes of
  \<open>Y\<close> with the sum of the weights and the combined Gram matrix. The constructor trims the
  leading false entries of \<open>Y\<close>: the depth of \<open>f * g\<close> is at most \<open>r + s\<close>, it is \<open>r + s\<close>
  exactly when \<open>Y[0]\<close> is true, and the terms of \<open>f * g\<close> are the last \<open>depth + 1\<close> entries
  of \<open>Y\<close>, the entries before them being false.
\<close>

theorem tensor_product:
  assumes wf: "wf_qform ops f" "wf_qform ops g"
    and expanded: "1 \<le> depth f" "1 \<le> depth g"
  shows "set (index_pairs (depth f) (depth g)) = {(i, j). i \<le> depth f \<and> j \<le> depth g} \<and>
     distinct (index_pairs (depth f) (depth g)) \<and>
     (mul_terms ops f g = Inr Y \<longleftrightarrow>
        length Y = depth f + depth g + 1 \<and>
        (\<forall>m \<le> depth f + depth g.
           add_all ops
             (w_zero ops (w_sum ops (bgram (qbase f)) (bgram (qbase g)))
                (of_nat (m + m) +
                 (bweight (qbase f) + bweight (qbase g)
                  - of_nat (depth f + depth g) - of_nat (depth f + depth g)))
                (b_precision ops (qbase f)))
             (products_at ops (terms f) (terms g) (index_pairs (depth f) (depth g)) m)
           = Inr (Y ! m))) \<and>
     (qmul ops f (MForm g) = Inr h \<longleftrightarrow>
        (\<exists>Z. mul_terms ops f g = Inr Z \<and>
             qinit ops (bweight (qbase f) + bweight (qbase g))
               (w_sum ops (bgram (qbase f)) (bgram (qbase g))) Z = Inr h)) \<and>
     ((\<exists>u. qmul ops f (MForm g) = Inr u) \<longleftrightarrow> (\<exists>Z. mul_terms ops f g = Inr Z)) \<and>
     (mul_terms ops f g = Inr Y \<and> qmul ops f (MForm g) = Inr h \<longrightarrow>
        bweight (qbase h) = bweight (qbase f) + bweight (qbase g) \<and>
        bgram (qbase h) = w_sum ops (bgram (qbase f)) (bgram (qbase g)) \<and>
        bfe (qbase h) = bfe (Y ! (depth f + depth g)) \<and>
        depth h \<le> depth f + depth g \<and>
        (depth h = depth f + depth g \<longleftrightarrow> b_bool ops (Y ! 0)) \<and>
        (1 \<le> depth h \<longrightarrow>
           terms h = drop (depth f + depth g - depth h) Y \<and>
           b_bool ops (terms h ! 0) \<and>
           (\<forall>i < depth f + depth g - depth h. \<not> b_bool ops (Y ! i))) \<and>
        (depth h = 0 \<longrightarrow>
           terms h = [qbase h] \<and> (\<forall>i < depth f + depth g. \<not> b_bool ops (Y ! i))))"
proof (intro conjI)
  show "set (index_pairs (depth f) (depth g)) = {(i, j). i \<le> depth f \<and> j \<le> depth g}"
    by (rule set_index_pairs)
  show "distinct (index_pairs (depth f) (depth g))" by (rule distinct_index_pairs)
  show "mul_terms ops f g = Inr Y \<longleftrightarrow>
        length Y = depth f + depth g + 1 \<and>
        (\<forall>m \<le> depth f + depth g.
           add_all ops
             (w_zero ops (w_sum ops (bgram (qbase f)) (bgram (qbase g)))
                (of_nat (m + m) +
                 (bweight (qbase f) + bweight (qbase g)
                  - of_nat (depth f + depth g) - of_nat (depth f + depth g)))
                (b_precision ops (qbase f)))
             (products_at ops (terms f) (terms g) (index_pairs (depth f) (depth g)) m)
           = Inr (Y ! m))"
    by (rule mul_terms_iff)
  show "qmul ops f (MForm g) = Inr h \<longleftrightarrow>
        (\<exists>Z. mul_terms ops f g = Inr Z \<and>
             qinit ops (bweight (qbase f) + bweight (qbase g))
               (w_sum ops (bgram (qbase f)) (bgram (qbase g))) Z = Inr h)"
    by (auto simp: qmul_def split: sum.splits)
  show "(\<exists>u. qmul ops f (MForm g) = Inr u) \<longleftrightarrow> (\<exists>Z. mul_terms ops f g = Inr Z)"
  proof
    assume "\<exists>u. qmul ops f (MForm g) = Inr u"
    then show "\<exists>Z. mul_terms ops f g = Inr Z"
      by (auto simp: qmul_def split: sum.splits)
  next
    assume "\<exists>Z. mul_terms ops f g = Inr Z"
    then obtain Z where Z: "mul_terms ops f g = Inr Z" by blast
    then have "Z \<noteq> []" unfolding mul_terms_iff by auto
    then show "\<exists>u. qmul ops f (MForm g) = Inr u"
      using Z by (auto simp: qmul_def qinit_def Let_def)
  qed
  show "mul_terms ops f g = Inr Y \<and> qmul ops f (MForm g) = Inr h \<longrightarrow>
        bweight (qbase h) = bweight (qbase f) + bweight (qbase g) \<and>
        bgram (qbase h) = w_sum ops (bgram (qbase f)) (bgram (qbase g)) \<and>
        bfe (qbase h) = bfe (Y ! (depth f + depth g)) \<and>
        depth h \<le> depth f + depth g \<and>
        (depth h = depth f + depth g \<longleftrightarrow> b_bool ops (Y ! 0)) \<and>
        (1 \<le> depth h \<longrightarrow>
           terms h = drop (depth f + depth g - depth h) Y \<and>
           b_bool ops (terms h ! 0) \<and>
           (\<forall>i < depth f + depth g - depth h. \<not> b_bool ops (Y ! i))) \<and>
        (depth h = 0 \<longrightarrow>
           terms h = [qbase h] \<and> (\<forall>i < depth f + depth g. \<not> b_bool ops (Y ! i)))"
    (is "?P \<longrightarrow> ?C")
  proof (intro impI, elim conjE)
    assume Y: "mul_terms ops f g = Inr Y" and h: "qmul ops f (MForm g) = Inr h"
    let ?n = "depth f + depth g"
    let ?j = "first_true ops Y"
    have q: "qinit ops (bweight (qbase f) + bweight (qbase g))
              (w_sum ops (bgram (qbase f)) (bgram (qbase g))) Y = Inr h"
      using Y h by (simp add: qmul_def)
    have len: "length Y = ?n + 1" using Y unfolding mul_terms_iff by blast
    have ne: "Y \<noteq> []" using len by auto
    have n2: "2 \<le> ?n" using expanded by simp
    have dh: "depth h = (if ?j < ?n then ?n - ?j else 0)"
      using qinit_depth[OF q] len by simp
    have th: "terms h = (if ?j < ?n then drop ?j Y else [qbase h])"
      using qinit_terms(3)[OF q] len by simp
    have lastY: "last Y = Y ! ?n" using last_conv_nth[OF ne] len by simp
    have 1: "bweight (qbase h) = bweight (qbase f) + bweight (qbase g)"
      and 2: "bgram (qbase h) = w_sum ops (bgram (qbase f)) (bgram (qbase g))"
      using qinit_weight[OF q] by simp_all
    have 3: "bfe (qbase h) = bfe (Y ! ?n)" using qinit_terms(2)[OF q] lastY by simp
    have 4: "depth h \<le> ?n" using dh by simp
    have "depth h = ?n \<longleftrightarrow> ?j = 0" using dh n2 by auto
    then have 5: "depth h = ?n \<longleftrightarrow> b_bool ops (Y ! 0)"
      using first_true_zero_iff[OF ne] by simp
    have 6: "terms h = drop (?n - depth h) Y \<and> b_bool ops (terms h ! 0) \<and>
        (\<forall>i < ?n - depth h. \<not> b_bool ops (Y ! i))" if d1: "1 \<le> depth h"
    proof -
      have j: "?j < ?n" using d1 dh by (auto split: if_splits)
      then have e: "?n - depth h = ?j" using dh by simp
      have t: "terms h = drop ?j Y" using th j by simp
      have "terms h ! 0 = Y ! ?j" unfolding t using j len by simp
      moreover have "b_bool ops (Y ! ?j)" by (rule nth_first_true) (use j len in simp)
      ultimately have b: "b_bool ops (terms h ! 0)" by simp
      show ?thesis unfolding e using t b first_true_false_before by blast
    qed
    have 7: "terms h = [qbase h] \<and> (\<forall>i < ?n. \<not> b_bool ops (Y ! i))" if d0: "depth h = 0"
    proof -
      have j: "\<not> ?j < ?n" using d0 dh by (auto split: if_splits)
      then have "\<forall>i < ?n. i < ?j" by auto
      then show ?thesis using th j first_true_false_before by auto
    qed
    show ?C using 1 2 3 4 5 6 7 by blast
  qed
qed

lemma wf_q_cusp: "wf_qform std_lib q_cusp"
proof -
  have "b_bool std_lib cusp0" by code_simp
  then show ?thesis by (simp add: wf_qform_def q_cusp_def)
qed

text \<open>On the square of \<open>q_depth1\<close> (terms \<open>1, 5\<close>), of depth 2 with terms \<open>1, 10, 25\<close>; and
  on the square of \<open>q_cusp\<close>, where the leading entry \<open>q * q = O(q^2)\<close> is false and is
  trimmed.\<close>

theorem tensor_product_witness:
  "wf_qform std_lib q_depth1 \<and> 1 \<le> depth q_depth1 \<and>
   mul_terms std_lib q_depth1 q_depth1
     = Inr [const_form 0 [] 1, const_form 2 [] 10, const_form 4 [] 25] \<and>
   products_at std_lib (terms q_depth1) (terms q_depth1)
       (index_pairs (depth q_depth1) (depth q_depth1)) 1
     = [const_form 2 [] 5, const_form 2 [] 5] \<and>
   add_all std_lib (w_zero std_lib [] 2 1) [const_form 2 [] 5, const_form 2 [] 5]
     = Inr (const_form 2 [] 10) \<and>
   qmul std_lib q_depth1 (MForm q_depth1) = Inr sq_depth1 \<and>
   bweight (qbase sq_depth1) = bweight (qbase q_depth1) + bweight (qbase q_depth1) \<and>
   b_bool std_lib ([const_form 0 [] 1, const_form 2 [] 10, const_form 4 [] 25] ! 0) \<and>
   depth sq_depth1 = depth q_depth1 + depth q_depth1 \<and>
   terms sq_depth1 = [const_form 0 [] 1, const_form 2 [] 10, const_form 4 [] 25] \<and>
   wf_qform std_lib q_cusp \<and> 1 \<le> depth q_cusp \<and>
   mul_terms std_lib q_cusp q_cusp = Inr sq_cusp_list \<and>
   qmul std_lib q_cusp (MForm q_cusp) = Inr sq_cusp \<and>
   \<not> b_bool std_lib (sq_cusp_list ! 0) \<and>
   depth sq_cusp \<noteq> depth q_cusp + depth q_cusp \<and>
   depth sq_cusp = 1 \<and>
   terms sq_cusp = drop (depth q_cusp + depth q_cusp - depth sq_cusp) sq_cusp_list \<and>
   bweight (qbase sq_cusp) = bweight (qbase q_cusp) + bweight (qbase q_cusp)"
proof -
  let ?Y = "[const_form 0 [] 1, const_form 2 [] 10, const_form 4 [] 25]"
  have d: "1 \<le> depth q_depth1" by (simp add: depth_def q_depth1_def)
  have m: "mul_terms std_lib q_depth1 q_depth1 = Inr ?Y" by code_simp
  have p: "products_at std_lib (terms q_depth1) (terms q_depth1)
       (index_pairs (depth q_depth1) (depth q_depth1)) 1
     = [const_form 2 [] 5, const_form 2 [] 5]"
    by code_simp
  have s: "add_all std_lib (w_zero std_lib [] 2 1) [const_form 2 [] 5, const_form 2 [] 5]
     = Inr (const_form 2 [] 10)"
    by code_simp
  have q: "qmul std_lib q_depth1 (MForm q_depth1) = Inr sq_depth1" by code_simp
  have b: "b_bool std_lib (?Y ! 0)" by (simp add: std_bool_const)
  have dsq: "depth sq_depth1 = 2" "depth q_depth1 = 1"
    by (simp_all add: depth_def sq_depth1_def q_depth1_def)
  note t1 = tensor_product[OF wf_q_depth1 wf_q_depth1 d d, of ?Y sq_depth1]
  have f1: "bweight (qbase sq_depth1) = bweight (qbase q_depth1) + bweight (qbase q_depth1)"
    "depth sq_depth1 = depth q_depth1 + depth q_depth1 \<longleftrightarrow> b_bool std_lib (?Y ! 0)"
    "1 \<le> depth sq_depth1 \<longrightarrow>
       terms sq_depth1 = drop (depth q_depth1 + depth q_depth1 - depth sq_depth1) ?Y"
    using t1 m q by blast+
  have g1: "depth sq_depth1 = depth q_depth1 + depth q_depth1" using f1(2) b by blast
  have h1: "terms sq_depth1 = ?Y" using f1(3) dsq by simp
  have dc: "1 \<le> depth q_cusp" "depth q_cusp = 1" by (simp_all add: depth_def q_cusp_def)
  have mc: "mul_terms std_lib q_cusp q_cusp = Inr sq_cusp_list" by code_simp
  have qc: "qmul std_lib q_cusp (MForm q_cusp) = Inr sq_cusp" by code_simp
  have bc: "\<not> b_bool std_lib (sq_cusp_list ! 0)" by code_simp
  have dsc: "depth sq_cusp = 1" by (simp add: depth_def sq_cusp_def)
  note t2 = tensor_product[OF wf_q_cusp wf_q_cusp dc(1) dc(1), of sq_cusp_list sq_cusp]
  have f2: "bweight (qbase sq_cusp) = bweight (qbase q_cusp) + bweight (qbase q_cusp)"
    "depth sq_cusp = depth q_cusp + depth q_cusp \<longleftrightarrow> b_bool std_lib (sq_cusp_list ! 0)"
    "1 \<le> depth sq_cusp \<longrightarrow>
       terms sq_cusp = drop (depth q_cusp + depth q_cusp - depth sq_cusp) sq_cusp_list"
    using t2 mc qc by blast+
  have g2: "depth sq_cusp \<noteq> depth q_cusp + depth q_cusp" using f2(2) bc by blast
  have h2: "terms sq_cusp = drop (depth q_cusp + depth q_cusp - depth sq_cusp) sq_cusp_list"
    using f2(3) dsc by simp
  show ?thesis
    using wf_q_depth1 d m p s q f1(1) b g1 h1 wf_q_cusp dc(1) mc qc bc g2 dsc h2 f2(1)
    by blast
qed

text \<open>The claim as written fails on the depth: both factors have depth 1, and their
  product has depth 1, not 2.\<close>

theorem tensor_depth_counterexample:
  "wf_qform std_lib q_cusp \<and> depth q_cusp = 1 \<and>
   qmul std_lib q_cusp (MForm q_cusp) = Inr sq_cusp \<and>
   depth sq_cusp = 1 \<and>
   depth sq_cusp \<noteq> depth q_cusp + depth q_cusp"
proof -
  have d: "depth q_cusp = 1" by (simp add: depth_def q_cusp_def)
  have q: "qmul std_lib q_cusp (MForm q_cusp) = Inr sq_cusp" by code_simp
  have s: "depth sq_cusp = 1" by (simp add: depth_def sq_cusp_def)
  show ?thesis using wf_q_cusp d q s by simp
qed

subsection \<open>Powers\<close>






subsection \<open>Regrouping products\<close>






































end
